theory Spec2Isabelle
  imports Main "HOL-Library.AList"
begin

section \<open>Values of the spreadsheet backend (src/gas/Code.gs)\<close>

text \<open>
  The backend is JavaScript running over spreadsheet ranges. A JavaScript string is a
  sequence of UTF-16 code units; it is modelled as the list of its code units, so that
  \<open>===\<close> on strings is list equality and \<open>trim\<close> can remove exactly the code units
  JavaScript counts as white space. \<open>js\<close> writes an ASCII literal.
\<close>

type_synonym jsstring = "nat list"

definition js :: "string \<Rightarrow> jsstring" where
  "js s = map of_char s"

text \<open>
  A cell read by \<open>getValues()\<close> is a string (the empty string for a blank cell), a number,
  a boolean or a date. Numbers are modelled for integer values, dates as milliseconds since
  the epoch. \<open>CProto n\<close> is not a cell of a sheet: it is the member named \<open>n\<close> that every
  object literal inherits from \<open>Object.prototype\<close>, which an indexing \<open>obj[n]\<close> of an object
  without an own property \<open>n\<close> yields, and which \<open>syncECData\<close> can place into a row it
  writes. The store keeps what \<open>setValue\<close>/\<open>setValues\<close> wrote; what the spreadsheet makes of
  a written value (its re-interpretation of typed text, its handling of a value that is not
  a cell value) is outside the model.
\<close>

datatype cell = CStr jsstring | CNum int | CBool bool | CDate int | CProto jsstring

text \<open>
  The names of the properties of \<open>Object.prototype\<close>. Each is a function, except
  \<open>__proto__\<close>, which reads as \<open>Object.prototype\<close> itself; all of them are truthy.
\<close>

definition objectPrototypeNames :: "jsstring list" where
  "objectPrototypeNames =
     [js ''constructor'', js ''toString'', js ''toLocaleString'', js ''valueOf'',
      js ''hasOwnProperty'', js ''isPrototypeOf'', js ''propertyIsEnumerable'',
      js ''__proto__'', js ''__defineGetter__'', js ''__defineSetter__'',
      js ''__lookupGetter__'', js ''__lookupSetter__'']"

text \<open>JavaScript truthiness, as used by \<open>!x\<close>, \<open>if (x)\<close> and \<open>x || d\<close>.\<close>

fun truthy :: "cell \<Rightarrow> bool" where
  "truthy (CStr s) = (s \<noteq> [])"
| "truthy (CNum n) = (n \<noteq> 0)"
| "truthy (CBool b) = b"
| "truthy (CDate d) = True"
| "truthy (CProto n) = True"

definition orElse :: "cell \<Rightarrow> cell \<Rightarrow> cell" where
  "orElse c d = (if truthy c then c else d)"

text \<open>
  What the hosting platform supplies: \<open>formatDate d\<close> is
  \<open>Utilities.formatDate(d, Session.getScriptTimeZone(), 'yyyy-MM-dd HH:mm:ss')\<close>,
  \<open>dateString d\<close> is \<open>Date.prototype.toString\<close>, \<open>coerceDate c\<close> is the time value of
  \<open>new Date(c)\<close> for a cell that is not itself a date, \<open>exponentString n\<close> is the text of a
  number of magnitude \<open>1e21\<close> or more (which JavaScript prints in exponent form), and
  \<open>protoString n\<close> is the text of the inherited member named \<open>n\<close>.
\<close>

record platform =
  formatDate :: "int \<Rightarrow> jsstring"
  dateString :: "int \<Rightarrow> jsstring"
  coerceDate :: "cell \<Rightarrow> int"
  exponentString :: "int \<Rightarrow> jsstring"
  protoString :: "jsstring \<Rightarrow> jsstring"

fun newDate :: "platform \<Rightarrow> cell \<Rightarrow> int" where
  "newDate P (CDate d) = d"
| "newDate P c = coerceDate P c"

text \<open>Decimal digits of a natural number, most significant first.\<close>

fun natDigits :: "nat \<Rightarrow> jsstring" where
  "natDigits n = (if n < 10 then [48 + n] else natDigits (n div 10) @ [48 + n mod 10])"

declare natDigits.simps [simp del]

text \<open>
  \<open>String(c)\<close>, \<open>c.toString()\<close> and \<open>`${c}`\<close> on a cell. An integer of magnitude below
  \<open>1e21\<close> prints as its decimal numeral.
\<close>

fun toStr :: "platform \<Rightarrow> cell \<Rightarrow> jsstring" where
  "toStr P (CStr s) = s"
| "toStr P (CNum n) =
     (if \<bar>n\<bar> < 1000000000000000000000
      then (if n < 0 then 45 # natDigits (nat (- n)) else natDigits (nat n))
      else exponentString P n)"
| "toStr P (CBool b) = (if b then js ''true'' else js ''false'')"
| "toStr P (CDate d) = dateString P d"
| "toStr P (CProto n) = protoString P n"

text \<open>The code units removed by \<open>String.prototype.trim\<close> (WhiteSpace and LineTerminator).\<close>

definition isWhite :: "nat \<Rightarrow> bool" where
  "isWhite c \<longleftrightarrow>
     (9 \<le> c \<and> c \<le> 13) \<or> c = 32 \<or> c = 160 \<or> c = 5760 \<or> (8192 \<le> c \<and> c \<le> 8202) \<or>
     c = 8232 \<or> c = 8233 \<or> c = 8239 \<or> c = 8287 \<or> c = 12288 \<or> c = 65279"

definition trim :: "jsstring \<Rightarrow> jsstring" where
  "trim s = rev (dropWhile isWhite (rev (dropWhile isWhite s)))"

section \<open>The Attendees sheet\<close>

text \<open>
  Columns A to K of the sheet, in the order the code addresses them by position:
  ID, Name, Email, Token, CheckInTime, EmailSent, TicketType, StartTime, ReEntryHistory,
  Inviter, Note (\<open>row[0]\<close> .. \<open>row[10]\<close>). \<open>getAttendeesSheet\<close> keeps the header in row 1
  and every scan starts at \<open>i = 1\<close>, so the store is the list of the rows below the header:
  element \<open>j\<close> of the list is \<open>data[j + 1]\<close>.
\<close>

record row =
  rowId :: cell
  rowName :: cell
  rowEmail :: cell
  rowToken :: cell
  rowCheckInTime :: cell
  rowEmailSent :: cell
  rowTicketType :: cell
  rowStartTime :: cell
  rowReEntryHistory :: cell
  rowInviter :: cell
  rowNote :: cell

type_synonym store = "row list"

section \<open>Check-in outcomes\<close>

datatype status = SUCCESS | WARNING | ERROR

text \<open>
  The message literals of the two check-in functions:
  \<open>TokenNotProvided\<close> is \<open>'... / Token not provided'\<close>, \<open>AlreadyCheckedIn\<close> is
  \<open>'... / Already checked in'\<close>, \<open>CheckInSuccessful\<close> is \<open>'... / Check-in successful'\<close>,
  \<open>InvalidTicket\<close> is \<open>'... / Invalid ticket'\<close>, \<open>MemberIdNotProvided\<close> is
  \<open>'... / Member ID not provided'\<close> and \<open>MemberIdNotFound\<close> is \<open>'... / Member ID not found'\<close>.
\<close>

datatype message_text =
  TokenNotProvided | AlreadyCheckedIn | CheckInSuccessful | InvalidTicket
  | MemberIdNotProvided | MemberIdNotFound

text \<open>
  The returned object. A property the object literal does not have is \<open>None\<close>.
\<close>

record outcome =
  success :: bool
  status :: "status option"
  message :: message_text
  outName :: "cell option"
  outId :: "cell option"
  outCheckInTime :: "jsstring option"
  outTicketType :: "cell option"
  outStartTime :: "cell option"

definition bareError :: "message_text \<Rightarrow> outcome" where
  "bareError m =
     \<lparr>success = False, status = None, message = m, outName = None, outId = None,
      outCheckInTime = None, outTicketType = None, outStartTime = None\<rparr>"

definition errorOutcome :: "message_text \<Rightarrow> outcome" where
  "errorOutcome m =
     \<lparr>success = False, status = Some ERROR, message = m, outName = None, outId = None,
      outCheckInTime = None, outTicketType = None, outStartTime = None\<rparr>"

text \<open>
  The \<open>WARNING\<close> object of a row found already checked in: the stored check-in time is
  passed through \<open>new Date\<close> and formatted.
\<close>

definition warningOutcome :: "platform \<Rightarrow> row \<Rightarrow> outcome" where
  "warningOutcome P r =
     \<lparr>success = False, status = Some WARNING, message = AlreadyCheckedIn,
      outName = Some (rowName r), outId = Some (rowId r),
      outCheckInTime = Some (formatDate P (newDate P (rowCheckInTime r))),
      outTicketType = Some (orElse (rowTicketType r) (CStr (js ''StandardPass''))),
      outStartTime = Some (orElse (rowStartTime r) (CStr []))\<rparr>"

definition successOutcome :: "platform \<Rightarrow> int \<Rightarrow> row \<Rightarrow> outcome" where
  "successOutcome P now r =
     \<lparr>success = True, status = Some SUCCESS, message = CheckInSuccessful,
      outName = Some (rowName r), outId = Some (rowId r),
      outCheckInTime = Some (formatDate P now),
      outTicketType = Some (orElse (rowTicketType r) (CStr (js ''StandardPass''))),
      outStartTime = Some (orElse (rowStartTime r) (CStr []))\<rparr>"

text \<open>
  The new content of the ReEntryHistory cell:
  \<open>reEntryHistory ? `${reEntryHistory}\n${nowStr}` : nowStr\<close> with
  \<open>reEntryHistory = row[8] || ''\<close>.
\<close>

definition newHistory :: "platform \<Rightarrow> int \<Rightarrow> cell \<Rightarrow> jsstring" where
  "newHistory P now h =
     (let reEntryHistory = orElse h (CStr []); nowStr = formatDate P now
      in if truthy reEntryHistory then toStr P reEntryHistory @ [10] @ nowStr else nowStr)"

definition logReEntry :: "platform \<Rightarrow> int \<Rightarrow> row \<Rightarrow> row" where
  "logReEntry P now r = r\<lparr>rowReEntryHistory := CStr (newHistory P now (rowReEntryHistory r))\<rparr>"

definition recordCheckIn :: "int \<Rightarrow> row \<Rightarrow> row" where
  "recordCheckIn now r = r\<lparr>rowCheckInTime := CDate now\<rparr>"

section \<open>checkInUser\<close>

text \<open>
  The scan of \<open>checkInUser\<close>: the first row whose token cell is strictly equal to the token
  decides the outcome and receives the single write; \<open>None\<close> is the loop running off the
  end of the data.
\<close>

fun tokenScan :: "platform \<Rightarrow> int \<Rightarrow> jsstring \<Rightarrow> store \<Rightarrow> (outcome \<times> store) option" where
  "tokenScan P now token [] = None"
| "tokenScan P now token (r # rs) =
     (if rowToken r = CStr token then
        (if truthy (rowCheckInTime r) then Some (warningOutcome P r, logReEntry P now r # rs)
         else Some (successOutcome P now r, recordCheckIn now r # rs))
      else (case tokenScan P now token rs of
              None \<Rightarrow> None
            | Some (out, rs') \<Rightarrow> Some (out, r # rs')))"

definition checkInUser :: "platform \<Rightarrow> int \<Rightarrow> jsstring \<Rightarrow> store \<Rightarrow> outcome \<times> store" where
  "checkInUser P now token data =
     (if token = [] then (bareError TokenNotProvided, data)
      else (case tokenScan P now token data of
              Some res \<Rightarrow> res
            | None \<Rightarrow> (errorOutcome InvalidTicket, data)))"

section \<open>manualCheckIn\<close>

text \<open>
  The scan of \<open>manualCheckIn\<close>. \<open>found\<close> is \<open>foundCheckedIn\<close> with \<open>foundCheckedInIndex\<close>.
  \<open>Inl (i, r)\<close> is the early return at the first matching row without a check-in time,
  \<open>Inr found\<close> the end of the loop.
\<close>

fun idScan :: "platform \<Rightarrow> jsstring \<Rightarrow> nat \<Rightarrow> (nat \<times> row) option \<Rightarrow> store
    \<Rightarrow> (nat \<times> row) + (nat \<times> row) option" where
  "idScan P memberId i found [] = Inr found"
| "idScan P memberId i found (r # rs) =
     (if toStr P (rowId r) = memberId then
        (if \<not> truthy (rowCheckInTime r) then Inl (i, r)
         else idScan P memberId (Suc i) (Some (i, r)) rs)
      else idScan P memberId (Suc i) found rs)"

definition manualCheckIn :: "platform \<Rightarrow> int \<Rightarrow> jsstring \<Rightarrow> store \<Rightarrow> outcome \<times> store" where
  "manualCheckIn P now memberId data =
     (if memberId = [] then (bareError MemberIdNotProvided, data)
      else (case idScan P memberId 0 None data of
              Inl (i, r) \<Rightarrow> (successOutcome P now r, data[i := recordCheckIn now r])
            | Inr (Some (i, r)) \<Rightarrow> (warningOutcome P r, data[i := logReEntry P now r])
            | Inr None \<Rightarrow> (errorOutcome MemberIdNotFound, data)))"

section \<open>getDashboardData\<close>

record typeCount =
  typeTotal :: nat
  typeCheckedIn :: nat

text \<open>The loop variables \<open>total\<close>, \<open>checkedIn\<close> and \<open>breakdown\<close>.\<close>

record tally =
  tallyTotal :: nat
  tallyCheckedIn :: nat
  tallyBreakdown :: "jsstring \<rightharpoonup> typeCount"

record dashboard =
  total :: nat
  checkedIn :: nat
  notCheckedIn :: int
  breakdown :: "jsstring \<rightharpoonup> typeCount"

text \<open>
  One pass of the loop body. \<open>breakdown\<close> is created as \<open>{}\<close>, so \<open>breakdown[ticketType]\<close>
  reads an own property or, for a name of \<open>objectPrototypeNames\<close>, the inherited member.
  That member is truthy: no own entry is created for such a type, and the two increments
  land on the inherited object and leave \<open>breakdown\<close> as it is. The map holds the own
  properties of \<open>breakdown\<close>.
\<close>

definition dashboardStep :: "platform \<Rightarrow> row \<Rightarrow> tally \<Rightarrow> tally" where
  "dashboardStep P r t =
     (let ticketType = toStr P (orElse (rowTicketType r) (CStr (js ''Unknown''))) in
      if truthy (rowId r) then
        (let entry = (case tallyBreakdown t ticketType of
                        None \<Rightarrow> \<lparr>typeTotal = 0, typeCheckedIn = 0\<rparr>
                      | Some e \<Rightarrow> e);
             counted = entry\<lparr>typeTotal := typeTotal entry + 1\<rparr>;
             inherited = (tallyBreakdown t ticketType = None
                          \<and> ticketType \<in> set objectPrototypeNames)
         in if truthy (rowCheckInTime r) then
              \<lparr>tallyTotal = tallyTotal t + 1, tallyCheckedIn = tallyCheckedIn t + 1,
               tallyBreakdown =
                 (if inherited then tallyBreakdown t
                  else (tallyBreakdown t)
                    (ticketType \<mapsto> counted\<lparr>typeCheckedIn := typeCheckedIn counted + 1\<rparr>))\<rparr>
            else
              \<lparr>tallyTotal = tallyTotal t + 1, tallyCheckedIn = tallyCheckedIn t,
               tallyBreakdown =
                 (if inherited then tallyBreakdown t
                  else (tallyBreakdown t)(ticketType \<mapsto> counted))\<rparr>)
      else t)"

fun dashboardScan :: "platform \<Rightarrow> tally \<Rightarrow> store \<Rightarrow> tally" where
  "dashboardScan P t [] = t"
| "dashboardScan P t (r # rs) = dashboardScan P (dashboardStep P r t) rs"

definition getDashboardData :: "platform \<Rightarrow> store \<Rightarrow> dashboard" where
  "getDashboardData P data =
     (let t = dashboardScan P
                \<lparr>tallyTotal = 0, tallyCheckedIn = 0, tallyBreakdown = Map.empty\<rparr> data
      in \<lparr>total = tallyTotal t, checkedIn = tallyCheckedIn t,
          notCheckedIn = int (tallyTotal t) - int (tallyCheckedIn t),
          breakdown = tallyBreakdown t\<rparr>)"

section \<open>Ticket taxonomy\<close>

definition TICKET_CONFIG :: "(jsstring \<times> jsstring) list" where
  "TICKET_CONFIG =
     [(js ''VIP Pass'', js ''18:30-19:00''),
      (js ''PriorityPass'', js ''18:30-19:00''),
      (js ''StandardPass'', js ''11:00-12:00''),
      (js ''GuestPass'', js ''11:00-12:00''),
      (js ''FreeGuest'', js ''18:30-19:00''),
      (js ''VIP'', js ''18:30-19:00''),
      (js ''General'', js ''11:00-12:00''),
      (js ''15400'', js ''18:30-19:00''),
      (js ''13200'', js ''11:00-12:00''),
      (js ''1100'', js ''11:00-12:00''),
      (js ''Invitation'', js ''18:30-19:00'')]"

text \<open>
  The two Japanese labels of the renaming chain, as UTF-16 code units:
  U+7121 U+6599 U+62DB U+5F85 U+8005 (free invitee) and
  U+5F79 U+54E1 U+62DB U+5F85 U+67A0 (officers' invitation quota).
\<close>

definition labelFreeInvitee :: jsstring where
  "labelFreeInvitee = [28961, 26009, 25307, 24453, 32773]"

definition labelOfficerInvitation :: jsstring where
  "labelOfficerInvitation = [24441, 21729, 25307, 24453, 26528]"

text \<open>The \<open>if\<close>/\<open>else if\<close> chain of \<open>syncECData\<close> that renames \<open>ticketType\<close>.\<close>

definition ticketTypeOf :: "jsstring \<Rightarrow> jsstring" where
  "ticketTypeOf ticketTypeInput =
     (if ticketTypeInput = js ''15400'' \<or> ticketTypeInput = js ''15,400''
        then js ''PriorityPass''
      else if ticketTypeInput = js ''13200'' \<or> ticketTypeInput = js ''13,200''
        then js ''StandardPass''
      else if ticketTypeInput = js ''1100'' \<or> ticketTypeInput = js ''1,100''
              \<or> ticketTypeInput = js ''Guest''
        then js ''GuestPass''
      else if ticketTypeInput = js ''Invitation'' \<or> ticketTypeInput = labelFreeInvitee
        then js ''FreeGuest''
      else if ticketTypeInput = labelOfficerInvitation
        then js ''VIP Pass''
      else ticketTypeInput)"

text \<open>
  \<open>TICKET_CONFIG[ticketType] || '11:00-12:00'\<close>. \<open>TICKET_CONFIG\<close> is an object literal: the
  indexing yields the own property of that name, else the inherited member of that name,
  else \<open>undefined\<close>.
\<close>

definition startTimeOf :: "jsstring \<Rightarrow> cell" where
  "startTimeOf ticketType =
     (case map_of TICKET_CONFIG ticketType of
        Some w \<Rightarrow> orElse (CStr w) (CStr (js ''11:00-12:00''))
      | None \<Rightarrow>
          if ticketType \<in> set objectPrototypeNames then CProto ticketType
          else CStr (js ''11:00-12:00''))"

text \<open>\<open>String(c || 'StandardPass').trim()\<close>, the label as \<open>syncECData\<close> reads it from a cell.\<close>

definition ticketTypeInputOf :: "platform \<Rightarrow> cell \<Rightarrow> jsstring" where
  "ticketTypeInputOf P c = trim (toStr P (orElse c (CStr (js ''StandardPass''))))"

section \<open>parseInt\<close>

text \<open>
  \<open>parseInt\<close> on a string: leading white space, an optional sign, an optional \<open>0x\<close>
  prefix, then the longest run of digits of the radix; \<open>None\<close> is \<open>NaN\<close>.
\<close>

definition digitValue :: "nat \<Rightarrow> nat \<Rightarrow> nat option" where
  "digitValue radix c =
     (let v = (if 48 \<le> c \<and> c \<le> 57 then Some (c - 48)
               else if 97 \<le> c \<and> c \<le> 122 then Some (c - 87)
               else if 65 \<le> c \<and> c \<le> 90 then Some (c - 55)
               else None)
      in case v of None \<Rightarrow> None | Some d \<Rightarrow> if d < radix then Some d else None)"

fun stripSign :: "jsstring \<Rightarrow> bool \<times> jsstring" where
  "stripSign [] = (False, [])"
| "stripSign (c # cs) =
     (if c = 45 then (True, cs) else if c = 43 then (False, cs) else (False, c # cs))"

fun stripPrefix :: "jsstring \<Rightarrow> nat \<times> jsstring" where
  "stripPrefix (a # b # cs) =
     (if a = 48 \<and> (b = 120 \<or> b = 88) then (16, cs) else (10, a # b # cs))"
| "stripPrefix cs = (10, cs)"

fun digitsValue :: "nat \<Rightarrow> nat \<Rightarrow> jsstring \<Rightarrow> nat" where
  "digitsValue radix acc [] = acc"
| "digitsValue radix acc (c # cs) =
     (case digitValue radix c of
        None \<Rightarrow> acc
      | Some d \<Rightarrow> digitsValue radix (acc * radix + d) cs)"

definition parseInt :: "jsstring \<Rightarrow> int option" where
  "parseInt s =
     (case stripSign (dropWhile isWhite s) of (negative, s1) \<Rightarrow>
      (case stripPrefix s1 of (radix, s2) \<Rightarrow>
        (case s2 of
           [] \<Rightarrow> None
         | c # cs \<Rightarrow>
             (if digitValue radix c = None then None
              else Some ((if negative then - 1 else 1) * int (digitsValue radix 0 s2))))))"

text \<open>\<open>parseInt(c) || 1\<close>: \<open>NaN\<close> and zero are both falsy.\<close>

definition quantityOf :: "platform \<Rightarrow> cell \<Rightarrow> int" where
  "quantityOf P c =
     (case parseInt (toStr P c) of None \<Rightarrow> 1 | Some n \<Rightarrow> if n = 0 then 1 else n)"

section \<open>syncECData\<close>

text \<open>
  A row of the ECData sheet (ID, Name, TicketType, Quantity) and of the MemberMaster sheet
  (ID, Name, Email). Both sheets are read at the width of the header that the code itself
  writes. A sheet is \<open>None\<close> while it has no content (\<open>getLastRow() === 0\<close>, also just after
  \<open>insertSheet\<close>), and otherwise \<open>Some\<close> of the rows below its first row.
\<close>

record ecRow =
  ecId :: cell
  ecName :: cell
  ecTicketType :: cell
  ecQuantity :: cell

record memberRow =
  mmId :: cell
  mmName :: cell
  mmEmail :: cell

record sheets =
  attendees :: store
  ecDataSheet :: "ecRow list option"
  memberMasterSheet :: "memberRow list option"

text \<open>Step 1: the \<open>emailMap\<close>.\<close>

fun readMemberMaster :: "platform \<Rightarrow> memberRow list \<Rightarrow> (jsstring \<rightharpoonup> jsstring)
    \<Rightarrow> (jsstring \<rightharpoonup> jsstring)" where
  "readMemberMaster P [] emailMap = emailMap"
| "readMemberMaster P (r # rs) emailMap =
     (let ident = trim (toStr P (mmId r)); email = trim (toStr P (mmEmail r))
      in readMemberMaster P rs (if ident \<noteq> [] then emailMap(ident \<mapsto> email) else emailMap))"

text \<open>\<open>m.get(key) || 0\<close> on a map of counts.\<close>

definition getOrZero :: "(jsstring \<rightharpoonup> int) \<Rightarrow> jsstring \<Rightarrow> int" where
  "getOrZero m key = (case m key of None \<Rightarrow> 0 | Some n \<Rightarrow> n)"

text \<open>
  Step 2: \<open>requiredTickets\<close> and \<open>ticketInfo\<close>. A JavaScript \<open>Map\<close> iterates in insertion
  order, so both are association lists; \<open>AList.update\<close> is \<open>Map.prototype.set\<close>. The
  source's local \<open>id\<close> is written \<open>ident\<close>.
\<close>

record ticketInfoEntry =
  infoId :: jsstring
  infoName :: cell
  infoTicketType :: jsstring
  infoStartTime :: cell

definition compositeKey :: "jsstring \<Rightarrow> jsstring \<Rightarrow> jsstring" where
  "compositeKey ident ticketType = ident @ [95] @ ticketType"

definition ecStep :: "platform \<Rightarrow> ecRow
    \<Rightarrow> (jsstring \<times> int) list \<times> (jsstring \<times> ticketInfoEntry) list
    \<Rightarrow> (jsstring \<times> int) list \<times> (jsstring \<times> ticketInfoEntry) list" where
  "ecStep P l acc =
     (case acc of (requiredTickets, ticketInfo) \<Rightarrow>
      (let ident = trim (toStr P (ecId l));
           ticketTypeInput = ticketTypeInputOf P (ecTicketType l);
           quantity = quantityOf P (ecQuantity l)
       in if ident = [] then (requiredTickets, ticketInfo)
          else
            (let ticketType = ticketTypeOf ticketTypeInput;
                 startTime = startTimeOf ticketType;
                 key = compositeKey ident ticketType;
                 currentCount = getOrZero (map_of requiredTickets) key
             in (AList.update key (currentCount + quantity) requiredTickets,
                 if map_of ticketInfo key = None
                 then AList.update key
                        \<lparr>infoId = ident, infoName = ecName l, infoTicketType = ticketType,
                         infoStartTime = startTime\<rparr> ticketInfo
                 else ticketInfo))))"

fun readECData :: "platform \<Rightarrow> ecRow list
    \<Rightarrow> (jsstring \<times> int) list \<times> (jsstring \<times> ticketInfoEntry) list
    \<Rightarrow> (jsstring \<times> int) list \<times> (jsstring \<times> ticketInfoEntry) list" where
  "readECData P [] acc = acc"
| "readECData P (l # ls) acc = readECData P ls (ecStep P l acc)"

text \<open>Step 3: \<open>existingCounts\<close>.\<close>

definition existingKey :: "platform \<Rightarrow> row \<Rightarrow> jsstring option" where
  "existingKey P r =
     (let ident = trim (toStr P (rowId r));
          type = trim (toStr P (orElse (rowTicketType r) (CStr (js ''StandardPass''))))
      in if ident \<noteq> [] then Some (compositeKey ident type) else None)"

fun countExisting :: "platform \<Rightarrow> store \<Rightarrow> (jsstring \<rightharpoonup> int) \<Rightarrow> (jsstring \<rightharpoonup> int)" where
  "countExisting P [] existingCounts = existingCounts"
| "countExisting P (r # rs) existingCounts =
     countExisting P rs
       (case existingKey P r of
          None \<Rightarrow> existingCounts
        | Some key \<Rightarrow>
            existingCounts(key \<mapsto> getOrZero existingCounts key + 1))"

text \<open>
  Step 4: the rows to add. \<open>TypeError\<close> is the read of \<open>info.id\<close> when
  \<open>ticketInfo.get(key)\<close> is \<open>undefined\<close>; it leaves the function before any write.
\<close>

datatype sync_error = TypeError

record generated =
  rowsToAdd :: "row list"
  matchedCount :: nat
  missingEmailCount :: nat

definition newRow :: "platform \<Rightarrow> ticketInfoEntry \<Rightarrow> jsstring \<Rightarrow> row" where
  "newRow P info email =
     (let guest = (infoTicketType info = js ''GuestPass'');
          displayName = (if guest then CStr (toStr P (infoName info) @ js '' (Guest)'')
                         else infoName info);
          note = (if guest then js ''Guest Ticket'' else [])
      in \<lparr>rowId = CStr (infoId info), rowName = displayName, rowEmail = CStr email,
          rowToken = CStr [], rowCheckInTime = CStr [], rowEmailSent = CStr [],
          rowTicketType = CStr (infoTicketType info), rowStartTime = infoStartTime info,
          rowReEntryHistory = CStr [], rowInviter = CStr [], rowNote = CStr note\<rparr>)"

fun generateMissing :: "platform \<Rightarrow> (jsstring \<rightharpoonup> jsstring)
    \<Rightarrow> (jsstring \<times> ticketInfoEntry) list \<Rightarrow> (jsstring \<rightharpoonup> int)
    \<Rightarrow> (jsstring \<times> int) list \<Rightarrow> generated \<Rightarrow> sync_error + generated" where
  "generateMissing P emailMap ticketInfo existingCounts [] g = Inr g"
| "generateMissing P emailMap ticketInfo existingCounts ((key, neededQty) # rest) g =
     (let haveQty = getOrZero existingCounts key;
          toCreate = neededQty - haveQty
      in if toCreate > 0 then
           (case map_of ticketInfo key of
              None \<Rightarrow> Inl TypeError
            | Some info \<Rightarrow>
                (let email = (case emailMap (infoId info) of None \<Rightarrow> [] | Some e \<Rightarrow> e)
                 in generateMissing P emailMap ticketInfo existingCounts rest
                      \<lparr>rowsToAdd = rowsToAdd g @ replicate (nat toCreate) (newRow P info email),
                       matchedCount = (if email \<noteq> [] then matchedCount g + 1
                                       else matchedCount g),
                       missingEmailCount = (if email \<noteq> [] then missingEmailCount g
                                            else missingEmailCount g + 1)\<rparr>))
         else generateMissing P emailMap ticketInfo existingCounts rest g)"

text \<open>
  The returned message: \<open>FillECData\<close> and \<open>FillMemberMaster\<close> are the two early returns
  after writing a header into a sheet without content, \<open>Synced a m e\<close> is
  \<open>`Synced. Added ${a} new tickets. Matched emails: ${m}. Missing emails: ${e}.`\<close>.
\<close>

datatype sync_message = FillECData | FillMemberMaster | Synced nat nat nat

definition syncECData :: "platform \<Rightarrow> sheets \<Rightarrow> sync_error + sync_message \<times> sheets" where
  "syncECData P S =
     (case ecDataSheet S of
        None \<Rightarrow> Inr (FillECData, S\<lparr>ecDataSheet := Some []\<rparr>)
      | Some ecData \<Rightarrow>
          (case memberMasterSheet S of
             None \<Rightarrow> Inr (FillMemberMaster, S\<lparr>memberMasterSheet := Some []\<rparr>)
           | Some masterData \<Rightarrow>
               (let emailMap = readMemberMaster P masterData Map.empty;
                    required = readECData P ecData ([], []);
                    existingCounts = countExisting P (attendees S) Map.empty
                in case generateMissing P emailMap (snd required) existingCounts (fst required)
                          \<lparr>rowsToAdd = [], matchedCount = 0, missingEmailCount = 0\<rparr> of
                     Inl e \<Rightarrow> Inl e
                   | Inr g \<Rightarrow>
                       Inr (Synced (length (rowsToAdd g)) (matchedCount g) (missingEmailCount g),
                            S\<lparr>attendees := attendees S @ rowsToAdd g\<rparr>))))"

section \<open>Vocabulary of the properties\<close>

text \<open>
  The key under which \<open>syncECData\<close> counts an order line (\<open>None\<close> for a line it skips)
  and the descriptive record it keeps for it.
\<close>

definition lineKey :: "platform \<Rightarrow> ecRow \<Rightarrow> jsstring option" where
  "lineKey P l =
     (if trim (toStr P (ecId l)) = [] then None
      else Some (compositeKey (trim (toStr P (ecId l)))
                   (ticketTypeOf (ticketTypeInputOf P (ecTicketType l)))))"

definition infoOfLine :: "platform \<Rightarrow> ecRow \<Rightarrow> ticketInfoEntry" where
  "infoOfLine P l =
     \<lparr>infoId = trim (toStr P (ecId l)), infoName = ecName l,
      infoTicketType = ticketTypeOf (ticketTypeInputOf P (ecTicketType l)),
      infoStartTime = startTimeOf (ticketTypeOf (ticketTypeInputOf P (ecTicketType l)))\<rparr>"

text \<open>
  The quantities of the reconciliation property, in its own words: the required quantity
  of a key is the sum of the quantities of the order lines that map to the key, the
  existing count is the number of store rows that step 3 counts under the key, and the key
  of a row is \<open>`${row[0]}_${row[6]}`\<close>.
\<close>

definition requiredQuantity :: "platform \<Rightarrow> ecRow list \<Rightarrow> jsstring \<Rightarrow> int" where
  "requiredQuantity P ecData key =
     sum_list (map (\<lambda>l. quantityOf P (ecQuantity l)) (filter (\<lambda>l. lineKey P l = Some key) ecData))"

definition existingCount :: "platform \<Rightarrow> store \<Rightarrow> jsstring \<Rightarrow> int" where
  "existingCount P data key = int (length (filter (\<lambda>r. existingKey P r = Some key) data))"

definition rowKey :: "platform \<Rightarrow> row \<Rightarrow> jsstring" where
  "rowKey P r = compositeKey (toStr P (rowId r)) (toStr P (rowTicketType r))"

text \<open>
  The same quantities by (id, ticket type) pair, as the reconciliation property words
  them. The pair of an order line is its id and its canonical ticket type (no pair for a
  line without id). The pair of a store row is the text of its ID cell and of its
  TicketType cell with surrounding white space trimmed, a blank TicketType cell counting as
  \<open>StandardPass\<close> (no pair for a row without id). \<open>requiredFor\<close> sums the quantities of the
  order lines of a pair, \<open>existingFor\<close> counts the store rows of a pair.
\<close>

definition linePair :: "platform \<Rightarrow> ecRow \<Rightarrow> (jsstring \<times> jsstring) option" where
  "linePair P l =
     (if trim (toStr P (ecId l)) = [] then None
      else Some (trim (toStr P (ecId l)), ticketTypeOf (ticketTypeInputOf P (ecTicketType l))))"

definition storePair :: "platform \<Rightarrow> row \<Rightarrow> (jsstring \<times> jsstring) option" where
  "storePair P r =
     (if trim (toStr P (rowId r)) = [] then None
      else Some (trim (toStr P (rowId r)),
                 trim (if truthy (rowTicketType r) then toStr P (rowTicketType r)
                       else js ''StandardPass'')))"

definition requiredFor :: "platform \<Rightarrow> ecRow list \<Rightarrow> jsstring \<Rightarrow> jsstring \<Rightarrow> int" where
  "requiredFor P ecData ident ticketType =
     sum_list (map (\<lambda>l. quantityOf P (ecQuantity l))
                 (filter (\<lambda>l. linePair P l = Some (ident, ticketType)) ecData))"

definition existingFor :: "platform \<Rightarrow> store \<Rightarrow> jsstring \<Rightarrow> jsstring \<Rightarrow> int" where
  "existingFor P data ident ticketType =
     int (length (filter (\<lambda>r. storePair P r = Some (ident, ticketType)) data))"

text \<open>
  The pairs of the order lines and of the store rows, and the condition that the joined
  text \<open>id_ticketType\<close> tells them apart: two of them with the same joined text are the
  same pair.
\<close>

definition pairsOf :: "platform \<Rightarrow> ecRow list \<Rightarrow> store \<Rightarrow> (jsstring \<times> jsstring) list" where
  "pairsOf P ecData data = List.map_filter (linePair P) ecData @ List.map_filter (storePair P) data"

definition keysUnambiguous :: "platform \<Rightarrow> ecRow list \<Rightarrow> store \<Rightarrow> bool" where
  "keysUnambiguous P ecData data \<longleftrightarrow>
     (\<forall>p\<in>set (pairsOf P ecData data). \<forall>q\<in>set (pairsOf P ecData data).
        compositeKey (fst p) (snd p) = compositeKey (fst q) (snd q) \<longrightarrow> p = q)"

text \<open>
  The type under which the dashboard property groups a row: its ticket type, a missing
  (falsy) one replaced by the sentinel \<open>Unknown\<close>.
\<close>

definition typeLabel :: "platform \<Rightarrow> row \<Rightarrow> jsstring" where
  "typeLabel P r =
     (if truthy (rowTicketType r) then toStr P (rowTicketType r) else js ''Unknown'')"

text \<open>
  The labels that the renaming chain of \<open>syncECData\<close> compares \<open>ticketType\<close> with.
\<close>

definition chainLabels :: "jsstring list" where
  "chainLabels =
     [js ''15400'', js ''15,400'', js ''13200'', js ''13,200'', js ''1100'', js ''1,100'',
      js ''Guest'', js ''Invitation'', labelFreeInvitee, labelOfficerInvitation]"

text \<open>
  Invariant of \<open>ticketInfo\<close> while ECData is read: every entry is the record of an order
  line that is counted under the entry's key.
\<close>

definition infoGood :: "platform \<Rightarrow> ecRow list \<Rightarrow> (jsstring \<times> ticketInfoEntry) list \<Rightarrow> bool" where
  "infoGood P ecData info \<longleftrightarrow>
     (\<forall>k i. map_of info k = Some i \<longrightarrow>
        (\<exists>l\<in>set ecData. lineKey P l = Some k \<and> i = infoOfLine P l))"

text \<open>
  The entry of \<open>breakdown\<close> for a type, or the fresh \<open>{ total: 0, checkedIn: 0 }\<close>.
\<close>

definition entryOf :: "(jsstring \<rightharpoonup> typeCount) \<Rightarrow> jsstring \<Rightarrow> typeCount" where
  "entryOf b k = (case b k of None \<Rightarrow> \<lparr>typeTotal = 0, typeCheckedIn = 0\<rparr> | Some e \<Rightarrow> e)"

text \<open>
  Concrete data for the examples: a platform whose date formats are one code unit holding
  the time value, an attendee row and an order line with fixed name.
\<close>

definition demoPlatform :: platform where
  "demoPlatform = \<lparr>formatDate = (\<lambda>d. [nat d]), dateString = (\<lambda>d. [nat d]),
     coerceDate = (\<lambda>c. 0), exponentString = (\<lambda>n. []), protoString = (\<lambda>n. n)\<rparr>"

definition demoRow :: "jsstring \<Rightarrow> jsstring \<Rightarrow> cell \<Rightarrow> jsstring \<Rightarrow> row" where
  "demoRow ident token checkInTime ticketType =
     \<lparr>rowId = CStr ident, rowName = CStr (js ''Alice''), rowEmail = CStr [],
      rowToken = CStr token, rowCheckInTime = checkInTime, rowEmailSent = CStr [],
      rowTicketType = CStr ticketType, rowStartTime = CStr [], rowReEntryHistory = CStr [],
      rowInviter = CStr [], rowNote = CStr []\<rparr>"

definition demoLine :: "jsstring \<Rightarrow> jsstring \<Rightarrow> cell \<Rightarrow> ecRow" where
  "demoLine ident label quantity =
     \<lparr>ecId = CStr ident, ecName = CStr (js ''Alice''), ecTicketType = CStr label,
      ecQuantity = quantity\<rparr>"

definition demoSheets :: "store \<Rightarrow> ecRow list \<Rightarrow> sheets" where
  "demoSheets data ecData =
     \<lparr>attendees = data, ecDataSheet = Some ecData, memberMasterSheet = Some []\<rparr>"

section \<open>Scanning lemmas\<close>

lemma first_index_ex:
  "\<exists>x\<in>set xs. Q x \<Longrightarrow> \<exists>i<length xs. Q (xs ! i) \<and> (\<forall>j<i. \<not> Q (xs ! j))"
proof (induction xs)
  case Nil
  then show ?case by simp
next
  case (Cons x xs)
  show ?case
  proof (cases "Q x")
    case True
    then have "0 < length (x # xs) \<and> Q ((x # xs) ! 0) \<and> (\<forall>j<0. \<not> Q ((x # xs) ! j))" by simp
    then show ?thesis by blast
  next
    case False
    with Cons.prems have "\<exists>y\<in>set xs. Q y" by auto
    from Cons.IH [OF this] obtain i where i: "i < length xs" "Q (xs ! i)" "\<forall>j<i. \<not> Q (xs ! j)"
      by blast
    have "\<forall>j<Suc i. \<not> Q ((x # xs) ! j)"
    proof (intro allI impI)
      fix j assume "j < Suc i"
      then show "\<not> Q ((x # xs) ! j)" using False i(3) by (cases j) auto
    qed
    with i have "Suc i < length (x # xs) \<and> Q ((x # xs) ! Suc i) \<and> (\<forall>j<Suc i. \<not> Q ((x # xs) ! j))"
      by simp
    then show ?thesis by blast
  qed
qed

lemma last_index_ex:
  "\<exists>x\<in>set xs. Q x \<Longrightarrow>
   \<exists>i<length xs. Q (xs ! i) \<and> (\<forall>j. i < j \<and> j < length xs \<longrightarrow> \<not> Q (xs ! j))"
proof (induction xs)
  case Nil
  then show ?case by simp
next
  case (Cons x xs)
  show ?case
  proof (cases "\<exists>y\<in>set xs. Q y")
    case True
    from Cons.IH [OF this] obtain i where i: "i < length xs" "Q (xs ! i)"
      "\<forall>j. i < j \<and> j < length xs \<longrightarrow> \<not> Q (xs ! j)" by blast
    have "\<forall>j. Suc i < j \<and> j < length (x # xs) \<longrightarrow> \<not> Q ((x # xs) ! j)"
    proof (intro allI impI)
      fix j assume "Suc i < j \<and> j < length (x # xs)"
      then show "\<not> Q ((x # xs) ! j)" using i(3) by (cases j) auto
    qed
    with i have "Suc i < length (x # xs) \<and> Q ((x # xs) ! Suc i)
        \<and> (\<forall>j. Suc i < j \<and> j < length (x # xs) \<longrightarrow> \<not> Q ((x # xs) ! j))" by simp
    then show ?thesis by blast
  next
    case False
    with Cons.prems have qx: "Q x" by auto
    have "\<forall>j. 0 < j \<and> j < length (x # xs) \<longrightarrow> \<not> Q ((x # xs) ! j)"
    proof (intro allI impI)
      fix j assume "0 < j \<and> j < length (x # xs)"
      then show "\<not> Q ((x # xs) ! j)" using False by (cases j) auto
    qed
    with qx have "0 < length (x # xs) \<and> Q ((x # xs) ! 0)
        \<and> (\<forall>j. 0 < j \<and> j < length (x # xs) \<longrightarrow> \<not> Q ((x # xs) ! j))" by simp
    then show ?thesis by blast
  qed
qed

lemma tokenScan_None_iff:
  "tokenScan P now token data = None \<longleftrightarrow> (\<forall>r\<in>set data. rowToken r \<noteq> CStr token)"
  by (induction data) (auto split: option.splits)

lemma tokenScan_first:
  assumes "i < length data" and "rowToken (data ! i) = CStr token"
    and "\<forall>j<i. rowToken (data ! j) \<noteq> CStr token"
  shows "tokenScan P now token data =
    Some (if truthy (rowCheckInTime (data ! i))
          then (warningOutcome P (data ! i), data[i := logReEntry P now (data ! i)])
          else (successOutcome P now (data ! i), data[i := recordCheckIn now (data ! i)]))"
  using assms
proof (induction data arbitrary: i)
  case Nil
  then show ?case by simp
next
  case (Cons r rs)
  show ?case
  proof (cases i)
    case 0
    with Cons.prems show ?thesis by simp
  next
    case (Suc k)
    from Cons.prems Suc have head: "rowToken r \<noteq> CStr token" by auto
    from Cons.prems Suc have "k < length rs" "rowToken (rs ! k) = CStr token"
      "\<forall>j<k. rowToken (rs ! j) \<noteq> CStr token" by auto
    from Cons.IH [OF this] head Suc show ?thesis by simp
  qed
qed

lemma tokenScan_Some:
  assumes "tokenScan P now token data = Some (out, data')"
  shows "\<exists>i<length data.
      (truthy (rowCheckInTime (data ! i)) \<and> out = warningOutcome P (data ! i)
         \<and> data' = data[i := logReEntry P now (data ! i)])
    \<or> (\<not> truthy (rowCheckInTime (data ! i)) \<and> out = successOutcome P now (data ! i)
         \<and> data' = data[i := recordCheckIn now (data ! i)])"
proof -
  from assms have "\<exists>r\<in>set data. rowToken r = CStr token"
    using tokenScan_None_iff [of P now token data] by auto
  from first_index_ex [of data "\<lambda>r. rowToken r = CStr token", OF this]
  obtain i where i: "i < length data" "rowToken (data ! i) = CStr token"
    "\<forall>j<i. rowToken (data ! j) \<noteq> CStr token" by blast
  from tokenScan_first [OF i, of P now] assms i(1) show ?thesis
    by (cases "truthy (rowCheckInTime (data ! i))") auto
qed

lemma newHistory_eq:
  "newHistory P now h =
     (if truthy h then toStr P h @ [10] @ formatDate P now else formatDate P now)"
  by (simp add: newHistory_def orElse_def Let_def)

lemma idScan_open:
  assumes "j < length s" and "toStr P (rowId (s ! j)) = m"
    and "\<not> truthy (rowCheckInTime (s ! j))"
    and "\<forall>l<j. toStr P (rowId (s ! l)) = m \<longrightarrow> truthy (rowCheckInTime (s ! l))"
  shows "idScan P m k found s = Inl (k + j, s ! j)"
  using assms
proof (induction s arbitrary: j k found)
  case Nil
  then show ?case by simp
next
  case (Cons r rs)
  show ?case
  proof (cases j)
    case 0
    with Cons.prems show ?thesis by simp
  next
    case (Suc j')
    from Cons.prems Suc have head: "toStr P (rowId r) = m \<longrightarrow> truthy (rowCheckInTime r)"
      by auto
    from Cons.prems Suc have tl: "j' < length rs" "toStr P (rowId (rs ! j')) = m"
      "\<not> truthy (rowCheckInTime (rs ! j'))"
      "\<forall>l<j'. toStr P (rowId (rs ! l)) = m \<longrightarrow> truthy (rowCheckInTime (rs ! l))"
      by auto
    have "idScan P m (Suc k) f rs = Inl (Suc k + j', rs ! j')" for f
      by (rule Cons.IH [OF tl])
    with head Suc show ?thesis by simp
  qed
qed

lemma idScan_no_match:
  "\<forall>r\<in>set s. toStr P (rowId r) \<noteq> m \<Longrightarrow> idScan P m k found s = Inr found"
  by (induction s arbitrary: k found) auto

lemma idScan_all_checked:
  assumes "j < length s" and "toStr P (rowId (s ! j)) = m"
    and "\<forall>l. j < l \<and> l < length s \<longrightarrow> toStr P (rowId (s ! l)) \<noteq> m"
    and "\<forall>r\<in>set s. toStr P (rowId r) = m \<longrightarrow> truthy (rowCheckInTime r)"
  shows "idScan P m k found s = Inr (Some (k + j, s ! j))"
  using assms
proof (induction s arbitrary: j k found)
  case Nil
  then show ?case by simp
next
  case (Cons r rs)
  show ?case
  proof (cases j)
    case 0
    have "\<forall>x\<in>set rs. toStr P (rowId x) \<noteq> m"
    proof
      fix x assume "x \<in> set rs"
      then obtain i where i: "i < length rs" "rs ! i = x" by (auto simp: in_set_conv_nth)
      from 0 i(1) have "j < Suc i \<and> Suc i < length (r # rs)" by simp
      with Cons.prems(3) have "toStr P (rowId ((r # rs) ! Suc i)) \<noteq> m" by blast
      with i(2) show "toStr P (rowId x) \<noteq> m" by simp
    qed
    then have "idScan P m (Suc k) f rs = Inr f" for f by (rule idScan_no_match)
    with Cons.prems 0 show ?thesis by simp
  next
    case (Suc j')
    have later: "\<forall>l. j' < l \<and> l < length rs \<longrightarrow> toStr P (rowId (rs ! l)) \<noteq> m"
    proof (intro allI impI)
      fix l assume "j' < l \<and> l < length rs"
      with Suc have "j < Suc l \<and> Suc l < length (r # rs)" by simp
      with Cons.prems(3) have "toStr P (rowId ((r # rs) ! Suc l)) \<noteq> m" by blast
      then show "toStr P (rowId (rs ! l)) \<noteq> m" by simp
    qed
    from Cons.prems Suc have "j' < length rs" "toStr P (rowId (rs ! j')) = m"
      "\<forall>x\<in>set rs. toStr P (rowId x) = m \<longrightarrow> truthy (rowCheckInTime x)"
      by auto
    with later have tl: "j' < length rs" "toStr P (rowId (rs ! j')) = m"
      "\<forall>l. j' < l \<and> l < length rs \<longrightarrow> toStr P (rowId (rs ! l)) \<noteq> m"
      "\<forall>x\<in>set rs. toStr P (rowId x) = m \<longrightarrow> truthy (rowCheckInTime x)"
      by auto
    have "idScan P m (Suc k) f rs = Inr (Some (Suc k + j', rs ! j'))" for f
      by (rule Cons.IH [OF tl])
    with Cons.prems(4) Suc show ?thesis by simp
  qed
qed

lemma manualCheckIn_open:
  assumes "memberId \<noteq> []" and "i < length data"
    and "toStr P (rowId (data ! i)) = memberId"
    and "\<not> truthy (rowCheckInTime (data ! i))"
    and "\<forall>l<i. toStr P (rowId (data ! l)) = memberId \<longrightarrow> truthy (rowCheckInTime (data ! l))"
  shows "manualCheckIn P now memberId data =
    (successOutcome P now (data ! i), data[i := recordCheckIn now (data ! i)])"
  using assms(1) idScan_open [OF assms(2-5), of 0 None]
  by (simp add: manualCheckIn_def)

lemma manualCheckIn_all_checked:
  assumes "memberId \<noteq> []" and "i < length data"
    and "toStr P (rowId (data ! i)) = memberId"
    and "\<forall>l. i < l \<and> l < length data \<longrightarrow> toStr P (rowId (data ! l)) \<noteq> memberId"
    and "\<forall>r\<in>set data. toStr P (rowId r) = memberId \<longrightarrow> truthy (rowCheckInTime r)"
  shows "manualCheckIn P now memberId data =
    (warningOutcome P (data ! i), data[i := logReEntry P now (data ! i)])"
  using assms(1) idScan_all_checked [OF assms(2-5), of 0 None]
  by (simp add: manualCheckIn_def)

lemma manualCheckIn_no_match:
  assumes "memberId \<noteq> []" and "\<forall>r\<in>set data. toStr P (rowId r) \<noteq> memberId"
  shows "manualCheckIn P now memberId data = (errorOutcome MemberIdNotFound, data)"
  using assms(1) idScan_no_match [OF assms(2), of 0 None]
  by (simp add: manualCheckIn_def)

lemma checkInUser_cases:
  "checkInUser P now token data = (bareError TokenNotProvided, data)
   \<or> checkInUser P now token data = (errorOutcome InvalidTicket, data)
   \<or> (\<exists>i<length data. checkInUser P now token data
          = (warningOutcome P (data ! i), data[i := logReEntry P now (data ! i)]))
   \<or> (\<exists>i<length data. checkInUser P now token data
          = (successOutcome P now (data ! i), data[i := recordCheckIn now (data ! i)]))"
proof (cases "token = []")
  case True
  then show ?thesis by (simp add: checkInUser_def)
next
  case False
  show ?thesis
  proof (cases "tokenScan P now token data")
    case None
    with False show ?thesis by (simp add: checkInUser_def)
  next
    case (Some res)
    obtain out data' where res: "res = (out, data')" by (cases res)
    from tokenScan_Some [of P now token data out data'] Some res
    obtain i where "i < length data"
      "(out = warningOutcome P (data ! i) \<and> data' = data[i := logReEntry P now (data ! i)])
       \<or> (out = successOutcome P now (data ! i) \<and> data' = data[i := recordCheckIn now (data ! i)])"
      by blast
    moreover have "checkInUser P now token data = (out, data')"
      using False Some res by (simp add: checkInUser_def)
    ultimately show ?thesis by auto
  qed
qed

lemma manualCheckIn_cases:
  "manualCheckIn P now memberId data = (bareError MemberIdNotProvided, data)
   \<or> manualCheckIn P now memberId data = (errorOutcome MemberIdNotFound, data)
   \<or> (\<exists>i<length data. manualCheckIn P now memberId data
          = (warningOutcome P (data ! i), data[i := logReEntry P now (data ! i)]))
   \<or> (\<exists>i<length data. manualCheckIn P now memberId data
          = (successOutcome P now (data ! i), data[i := recordCheckIn now (data ! i)]))"
proof (cases "memberId = []")
  case True
  then show ?thesis by (simp add: manualCheckIn_def)
next
  case False
  let ?m = "\<lambda>r. toStr P (rowId r) = memberId"
  let ?open = "\<lambda>r. toStr P (rowId r) = memberId \<and> \<not> truthy (rowCheckInTime r)"
  show ?thesis
  proof (cases "\<exists>r\<in>set data. ?open r")
    case True
    from first_index_ex [of data ?open, OF True]
    obtain i where i: "i < length data" "?open (data ! i)" "\<forall>j<i. \<not> ?open (data ! j)" by blast
    then have "\<forall>j<i. toStr P (rowId (data ! j)) = memberId \<longrightarrow> truthy (rowCheckInTime (data ! j))"
      by blast
    with i manualCheckIn_open [OF False i(1), of P now] show ?thesis by blast
  next
    case allChecked: False
    show ?thesis
    proof (cases "\<exists>r\<in>set data. ?m r")
      case True
      from last_index_ex [of data ?m, OF True]
      obtain i where i: "i < length data" "?m (data ! i)"
        "\<forall>j. i < j \<and> j < length data \<longrightarrow> \<not> ?m (data ! j)" by blast
      from allChecked have "\<forall>r\<in>set data. ?m r \<longrightarrow> truthy (rowCheckInTime r)" by blast
      from manualCheckIn_all_checked [OF False i this, of now] i(1) show ?thesis by blast
    next
      case False
      then have "\<forall>r\<in>set data. toStr P (rowId r) \<noteq> memberId" by blast
      from manualCheckIn_no_match [OF \<open>memberId \<noteq> []\<close> this] show ?thesis by blast
    qed
  qed
qed

section \<open>Reconciliation lemmas\<close>

lemma ecStep_eq:
  "ecStep P l (req, info) =
     (case lineKey P l of
        None \<Rightarrow> (req, info)
      | Some key \<Rightarrow>
          (AList.update key (getOrZero (map_of req) key + quantityOf P (ecQuantity l)) req,
           if map_of info key = None then AList.update key (infoOfLine P l) info else info))"
  by (simp add: ecStep_def lineKey_def infoOfLine_def Let_def)

lemma getOrZero_upd:
  "getOrZero (m(k \<mapsto> v)) k' = (if k' = k then v else getOrZero m k')"
  by (simp add: getOrZero_def)

lemma readECData_required:
  "map_of (fst (readECData P ls (req, info))) k =
     (if filter (\<lambda>l. lineKey P l = Some k) ls = [] then map_of req k
      else Some (getOrZero (map_of req) k + requiredQuantity P ls k))"
proof (induction ls arbitrary: req info)
  case Nil
  then show ?case by simp
next
  case (Cons l ls)
  show ?case
  proof (cases "lineKey P l")
    case None
    then show ?thesis
      by (simp add: ecStep_eq Cons.IH requiredQuantity_def)
  next
    case (Some key)
    show ?thesis
    proof (cases "key = k")
      case True
      with Some show ?thesis
        by (simp add: ecStep_eq Cons.IH requiredQuantity_def update_conv' getOrZero_upd)
           (simp add: getOrZero_def)
    next
      case False
      with Some show ?thesis
        by (simp add: ecStep_eq Cons.IH requiredQuantity_def update_conv' getOrZero_upd)
    qed
  qed
qed

lemma readECData_distinct:
  "distinct (map fst req) \<Longrightarrow> distinct (map fst (fst (readECData P ls (req, info))))"
proof (induction ls arbitrary: req info)
  case Nil
  then show ?case by simp
next
  case (Cons l ls)
  then show ?case
    by (cases "lineKey P l") (simp_all add: ecStep_eq distinct_update)
qed

lemma readECData_info:
  assumes "infoGood P ecData info" and "set ls \<subseteq> set ecData"
    and "\<forall>k. map_of req k \<noteq> None \<longrightarrow> map_of info k \<noteq> None"
  shows "infoGood P ecData (snd (readECData P ls (req, info)))
    \<and> (\<forall>k. map_of (fst (readECData P ls (req, info))) k \<noteq> None
          \<longrightarrow> map_of (snd (readECData P ls (req, info))) k \<noteq> None)"
  using assms
proof (induction ls arbitrary: req info)
  case Nil
  then show ?case by simp
next
  case (Cons l ls)
  show ?case
  proof (cases "lineKey P l")
    case None
    with Cons.prems Cons.IH [of info req] show ?thesis by (simp add: ecStep_eq)
  next
    case (Some key)
    let ?req = "AList.update key (getOrZero (map_of req) key + quantityOf P (ecQuantity l)) req"
    let ?info = "if map_of info key = None then AList.update key (infoOfLine P l) info else info"
    from Cons.prems(2) have lin: "l \<in> set ecData" by simp
    have good: "infoGood P ecData ?info"
      unfolding infoGood_def
    proof (intro allI impI)
      fix k i assume a: "map_of ?info k = Some i"
      show "\<exists>l\<in>set ecData. lineKey P l = Some k \<and> i = infoOfLine P l"
      proof (cases "map_of info key = None \<and> k = key")
        case True
        with a have "i = infoOfLine P l" by (simp add: update_conv')
        with True Some lin show ?thesis by blast
      next
        case False
        with a have "map_of info k = Some i" by (auto simp: update_conv' split: if_splits)
        with Cons.prems(1) show ?thesis unfolding infoGood_def by blast
      qed
    qed
    have dom: "\<forall>k. map_of ?req k \<noteq> None \<longrightarrow> map_of ?info k \<noteq> None"
      using Cons.prems(3) by (auto simp: update_conv')
    from Cons.prems(2) have sub: "set ls \<subseteq> set ecData" by simp
    from Cons.IH [OF good sub dom] Some show ?thesis by (simp add: ecStep_eq)
  qed
qed

lemma infoGood_entry:
  assumes "infoGood P ecData info" and "map_of info k = Some i"
  shows "k = compositeKey (infoId i) (infoTicketType i)"
    and "\<exists>l\<in>set ecData. trim (toStr P (ecId l)) \<noteq> [] \<and> infoId i = trim (toStr P (ecId l))
           \<and> infoTicketType i = ticketTypeOf (ticketTypeInputOf P (ecTicketType l))"
proof -
  from assms obtain l where l: "l \<in> set ecData" "lineKey P l = Some k" "i = infoOfLine P l"
    unfolding infoGood_def by blast
  from l(2,3) show "k = compositeKey (infoId i) (infoTicketType i)"
    by (auto simp: lineKey_def infoOfLine_def split: if_splits)
  from l show "\<exists>l\<in>set ecData. trim (toStr P (ecId l)) \<noteq> [] \<and> infoId i = trim (toStr P (ecId l))
           \<and> infoTicketType i = ticketTypeOf (ticketTypeInputOf P (ecTicketType l))"
    by (auto simp: lineKey_def infoOfLine_def split: if_splits)
qed

lemma readECData_infoGood:
  "infoGood P ecData (snd (readECData P ecData ([], [])))"
proof -
  have good0: "infoGood P ecData []" by (simp add: infoGood_def)
  have dom0: "\<forall>k. map_of ([] :: (jsstring \<times> int) list) k \<noteq> None
      \<longrightarrow> map_of ([] :: (jsstring \<times> ticketInfoEntry) list) k \<noteq> None" by simp
  from readECData_info [OF good0 subset_refl dom0] show ?thesis by blast
qed

lemma countExisting_getOrZero:
  "getOrZero (countExisting P rs m) k =
     getOrZero m k + int (length (filter (\<lambda>r. existingKey P r = Some k) rs))"
proof (induction rs arbitrary: m)
  case Nil
  then show ?case by simp
next
  case (Cons r rs)
  show ?case
  proof (cases "existingKey P r")
    case None
    then show ?thesis by (simp add: Cons.IH)
  next
    case (Some key)
    have step: "getOrZero (m(key \<mapsto> getOrZero m key + 1)) k
        = getOrZero m k + (if key = k then 1 else 0)"
      by (simp add: getOrZero_def)
    from Some have "getOrZero (countExisting P (r # rs) m) k
        = getOrZero (m(key \<mapsto> getOrZero m key + 1)) k
          + int (length (filter (\<lambda>r. existingKey P r = Some k) rs))"
      by (simp only: countExisting.simps option.case Cons.IH)
    with Some step show ?thesis by simp
  qed
qed

lemma rowKey_newRow:
  "rowKey P (newRow P i e) = compositeKey (infoId i) (infoTicketType i)"
  by (simp add: rowKey_def newRow_def Let_def)

lemma generateMissing_returns:
  assumes "\<forall>k. map_of req k \<noteq> None \<longrightarrow> map_of info k \<noteq> None"
    and "distinct (map fst req)"
  shows "\<exists>g'. generateMissing P em info ex req g = Inr g'"
  using assms
proof (induction req arbitrary: g)
  case Nil
  then show ?case by simp
next
  case (Cons p req)
  obtain key n where p: "p = (key, n)" by (cases p)
  from Cons.prems p have rest: "\<forall>k. map_of req k \<noteq> None \<longrightarrow> map_of info k \<noteq> None"
    by (auto simp: map_of_eq_None_iff)
  from Cons.prems(2) have d: "distinct (map fst req)" by simp
  from Cons.prems(1) p obtain i where i: "map_of info key = Some i" by fastforce
  from Cons.IH [OF rest d] i p show ?case by (simp add: Let_def)
qed

lemma generateMissing_count:
  assumes "generateMissing P em info ex req g = Inr g'"
    and "distinct (map fst req)" and "infoGood P ecData info"
  shows "length (filter (\<lambda>r. rowKey P r = k) (rowsToAdd g')) =
      length (filter (\<lambda>r. rowKey P r = k) (rowsToAdd g))
      + (case map_of req k of None \<Rightarrow> 0 | Some n \<Rightarrow> nat (n - getOrZero ex k))"
  using assms(1,2)
proof (induction req arbitrary: g)
  case Nil
  then show ?case by simp
next
  case (Cons p req)
  obtain key n where p: "p = (key, n)" by (cases p)
  from Cons.prems(2) p have d: "distinct (map fst req)" and fresh: "map_of req key = None"
    by (auto simp: map_of_eq_None_iff)
  show ?case
  proof (cases "n - getOrZero ex key > 0")
    case False
    with Cons.prems(1) p have "generateMissing P em info ex req g = Inr g'"
      by (simp add: Let_def)
    from Cons.IH [OF this d] False p fresh show ?thesis by auto
  next
    case True
    with Cons.prems(1) p obtain i where i: "map_of info key = Some i"
      by (cases "map_of info key") (auto simp: Let_def)
    let ?e = "case em (infoId i) of None \<Rightarrow> [] | Some e \<Rightarrow> e"
    let ?g = "\<lparr>rowsToAdd = rowsToAdd g @ replicate (nat (n - getOrZero ex key)) (newRow P i ?e),
               matchedCount = (if ?e \<noteq> [] then matchedCount g + 1 else matchedCount g),
               missingEmailCount = (if ?e \<noteq> [] then missingEmailCount g
                                    else missingEmailCount g + 1)\<rparr>"
    from Cons.prems(1) p True i have run: "generateMissing P em info ex req ?g = Inr g'"
      by (simp add: Let_def)
    from infoGood_entry(1) [OF assms(3) i]
    have "key = compositeKey (infoId i) (infoTicketType i)" .
    then have k: "rowKey P (newRow P i ?e) = key" by (simp add: rowKey_newRow)
    have added: "length (filter (\<lambda>r. rowKey P r = k) (rowsToAdd ?g)) =
        length (filter (\<lambda>r. rowKey P r = k) (rowsToAdd g))
        + (if key = k then nat (n - getOrZero ex key) else 0)"
      using k by (simp add: filter_replicate)
    from Cons.IH [OF run d] added p fresh show ?thesis by auto
  qed
qed

lemma generateMissing_rows:
  assumes "generateMissing P em info ex req g = Inr g'"
  shows "\<forall>r\<in>set (rowsToAdd g'). r \<in> set (rowsToAdd g)
           \<or> (\<exists>k i e. map_of info k = Some i \<and> r = newRow P i e)"
  using assms
proof (induction req arbitrary: g)
  case Nil
  then show ?case by simp
next
  case (Cons p req)
  obtain key n where p: "p = (key, n)" by (cases p)
  show ?case
  proof (cases "n - getOrZero ex key > 0")
    case False
    with Cons.prems p have "generateMissing P em info ex req g = Inr g'"
      by (simp add: Let_def)
    from Cons.IH [OF this] show ?thesis .
  next
    case True
    with Cons.prems p obtain i where i: "map_of info key = Some i"
      by (cases "map_of info key") (auto simp: Let_def)
    let ?e = "case em (infoId i) of None \<Rightarrow> [] | Some e \<Rightarrow> e"
    let ?g = "\<lparr>rowsToAdd = rowsToAdd g @ replicate (nat (n - getOrZero ex key)) (newRow P i ?e),
               matchedCount = (if ?e \<noteq> [] then matchedCount g + 1 else matchedCount g),
               missingEmailCount = (if ?e \<noteq> [] then missingEmailCount g
                                    else missingEmailCount g + 1)\<rparr>"
    from Cons.prems p True i have run: "generateMissing P em info ex req ?g = Inr g'"
      by (simp add: Let_def)
    from Cons.IH [OF run] i show ?thesis by fastforce
  qed
qed

lemma syncECData_run:
  assumes "ecDataSheet S = Some ecData" and "memberMasterSheet S = Some masterData"
  shows "\<exists>g. generateMissing P (readMemberMaster P masterData Map.empty)
            (snd (readECData P ecData ([], []))) (countExisting P (attendees S) Map.empty)
            (fst (readECData P ecData ([], [])))
            \<lparr>rowsToAdd = [], matchedCount = 0, missingEmailCount = 0\<rparr> = Inr g
      \<and> syncECData P S = Inr (Synced (length (rowsToAdd g)) (matchedCount g) (missingEmailCount g),
            S\<lparr>attendees := attendees S @ rowsToAdd g\<rparr>)"
proof -
  have good0: "infoGood P ecData []" by (simp add: infoGood_def)
  have dom0: "\<forall>k. map_of ([] :: (jsstring \<times> int) list) k \<noteq> None
      \<longrightarrow> map_of ([] :: (jsstring \<times> ticketInfoEntry) list) k \<noteq> None" by simp
  from readECData_info [OF good0 subset_refl dom0]
  have dom: "\<forall>k. map_of (fst (readECData P ecData ([], []))) k \<noteq> None
      \<longrightarrow> map_of (snd (readECData P ecData ([], []))) k \<noteq> None" by blast
  have dist: "distinct (map fst (fst (readECData P ecData ([], []))))"
    by (rule readECData_distinct) simp
  from generateMissing_returns [OF dom dist]
  obtain g where g: "generateMissing P (readMemberMaster P masterData Map.empty)
            (snd (readECData P ecData ([], []))) (countExisting P (attendees S) Map.empty)
            (fst (readECData P ecData ([], [])))
            \<lparr>rowsToAdd = [], matchedCount = 0, missingEmailCount = 0\<rparr> = Inr g" by blast
  with assms show ?thesis by (simp add: syncECData_def Let_def)
qed

lemma ticketTypeOf_not_alias: "ticketTypeOf t \<notin> set chainLabels"
  by (simp add: ticketTypeOf_def chainLabels_def js_def labelFreeInvitee_def
      labelOfficerInvitation_def)

lemma trim_trim: "trim (trim s) = trim s"
proof -
  let ?u = "dropWhile isWhite s"
  let ?w = "dropWhile isWhite (rev ?u)"
  have v: "trim s = rev ?w" by (simp add: trim_def)
  have split: "?u = rev ?w @ rev (takeWhile isWhite (rev ?u))"
  proof -
    have "rev ?u = takeWhile isWhite (rev ?u) @ ?w" by simp
    then have "rev (rev ?u) = rev (takeWhile isWhite (rev ?u) @ ?w)" by (rule arg_cong)
    then show ?thesis by (simp only: rev_rev_ident rev_append)
  qed
  have front: "dropWhile isWhite (rev ?w) = rev ?w"
  proof (cases "rev ?w")
    case Nil
    show ?thesis by (simp only: Nil dropWhile.simps)
  next
    case (Cons a as)
    from split [unfolded Cons]
    have "dropWhile isWhite s = a # (as @ rev (takeWhile isWhite (rev ?u)))"
      by (simp only: append_Cons)
    with dropWhile_eq_Cons_conv [of isWhite s a] have "\<not> isWhite a" by blast
    then have "dropWhile isWhite (a # as) = a # as" by simp
    then show ?thesis by (simp only: Cons)
  qed
  have rear: "dropWhile isWhite (rev (rev ?w)) = rev (rev ?w)"
    by (simp add: dropWhile_idem)
  show ?thesis unfolding v by (simp add: trim_def front rear [simplified])
qed

lemma ticketTypeOf_stable:
  assumes "t \<noteq> []" and "trim t = t"
  shows "ticketTypeOf t \<noteq> [] \<and> trim (ticketTypeOf t) = ticketTypeOf t"
  using assms
  by (auto simp: ticketTypeOf_def trim_def js_def isWhite_def)

lemma existingKey_newRow:
  assumes "infoId i \<noteq> []" and "trim (infoId i) = infoId i"
    and "infoTicketType i \<noteq> []" and "trim (infoTicketType i) = infoTicketType i"
  shows "existingKey P (newRow P i e) = Some (rowKey P (newRow P i e))"
  using assms by (simp add: existingKey_def newRow_def rowKey_def orElse_def Let_def)

lemma run_counts:
  assumes gen: "generateMissing P em (snd (readECData P ecData ([], [])))
      (countExisting P data Map.empty) (fst (readECData P ecData ([], [])))
      \<lparr>rowsToAdd = [], matchedCount = 0, missingEmailCount = 0\<rparr> = Inr g"
  shows "int (length (filter (\<lambda>r. rowKey P r = key) (rowsToAdd g)))
      = max (requiredQuantity P ecData key - existingCount P data key) 0"
proof -
  let ?req = "fst (readECData P ecData ([], []))"
  let ?info = "snd (readECData P ecData ([], []))"
  let ?ex = "countExisting P data Map.empty"
  have good: "infoGood P ecData ?info" by (rule readECData_infoGood)
  have dist: "distinct (map fst ?req)" by (rule readECData_distinct) simp
  have ex: "getOrZero ?ex key = existingCount P data key"
    by (simp add: countExisting_getOrZero existingCount_def) (simp add: getOrZero_def)
  show ?thesis
  proof (cases "filter (\<lambda>l. lineKey P l = Some key) ecData = []")
    case True
    then have "map_of ?req key = None" and "requiredQuantity P ecData key = 0"
      by (simp_all add: readECData_required requiredQuantity_def)
    with generateMissing_count [OF gen dist good, of key] show ?thesis
      by (simp add: existingCount_def)
  next
    case False
    then have "map_of ?req key = Some (requiredQuantity P ecData key)"
      by (simp add: readECData_required getOrZero_def)
    with generateMissing_count [OF gen dist good, of key] ex show ?thesis
      by simp
  qed
qed

lemma run_rows_keys:
  assumes gen: "generateMissing P em (snd (readECData P ecData ([], [])))
      ex (fst (readECData P ecData ([], [])))
      \<lparr>rowsToAdd = [], matchedCount = 0, missingEmailCount = 0\<rparr> = Inr g"
    and labels: "\<forall>l\<in>set ecData. trim (toStr P (ecId l)) \<noteq> []
      \<longrightarrow> ticketTypeInputOf P (ecTicketType l) \<noteq> []"
  shows "\<forall>r\<in>set (rowsToAdd g). existingKey P r = Some (rowKey P r)"
proof
  fix r assume "r \<in> set (rowsToAdd g)"
  with generateMissing_rows [OF gen] obtain k i e where
    i: "map_of (snd (readECData P ecData ([], []))) k = Some i" and r: "r = newRow P i e"
    by auto
  from infoGood_entry(2) [OF readECData_infoGood i] obtain l where
    l: "l \<in> set ecData" "trim (toStr P (ecId l)) \<noteq> []" "infoId i = trim (toStr P (ecId l))"
      "infoTicketType i = ticketTypeOf (ticketTypeInputOf P (ecTicketType l))" by blast
  from labels l(1,2) have ne: "ticketTypeInputOf P (ecTicketType l) \<noteq> []" by blast
  have tr: "trim (ticketTypeInputOf P (ecTicketType l)) = ticketTypeInputOf P (ecTicketType l)"
    by (simp add: ticketTypeInputOf_def trim_trim)
  from ticketTypeOf_stable [OF ne tr] l(4)
  have t: "infoTicketType i \<noteq> []" "trim (infoTicketType i) = infoTicketType i" by simp_all
  from l(2,3) have d: "infoId i \<noteq> []" "trim (infoId i) = infoId i" by (simp_all add: trim_trim)
  from existingKey_newRow [OF d t] r show "existingKey P r = Some (rowKey P r)" by simp
qed

lemma existingCount_append:
  assumes "\<forall>r\<in>set new. existingKey P r = Some (rowKey P r)"
  shows "existingCount P (data @ new) key
      = existingCount P data key + int (length (filter (\<lambda>r. rowKey P r = key) new))"
proof -
  from assms have "filter (\<lambda>r. existingKey P r = Some key) new = filter (\<lambda>r. rowKey P r = key) new"
    by (intro filter_cong) auto
  then show ?thesis by (simp add: existingCount_def)
qed

lemma lineKey_linePair:
  "lineKey P l = map_option (\<lambda>p. compositeKey (fst p) (snd p)) (linePair P l)"
  by (simp add: lineKey_def linePair_def)

lemma existingKey_storePair:
  "existingKey P r = map_option (\<lambda>p. compositeKey (fst p) (snd p)) (storePair P r)"
  by (simp add: existingKey_def storePair_def orElse_def Let_def)

lemma linePair_in_pairsOf:
  "l \<in> set ecData \<Longrightarrow> linePair P l = Some p \<Longrightarrow> p \<in> set (pairsOf P ecData data)"
  by (auto simp: pairsOf_def map_filter_def intro!: image_eqI [where x = l])

lemma storePair_in_pairsOf:
  "r \<in> set data \<Longrightarrow> storePair P r = Some p \<Longrightarrow> p \<in> set (pairsOf P ecData data)"
  by (auto simp: pairsOf_def map_filter_def intro!: image_eqI [where x = r])

lemma unambiguous_pair:
  assumes "keysUnambiguous P ecData data"
    and "p \<in> set (pairsOf P ecData data)" and "q \<in> set (pairsOf P ecData data)"
    and "compositeKey (fst p) (snd p) = compositeKey (fst q) (snd q)"
  shows "p = q"
  using assms unfolding keysUnambiguous_def by blast

lemma generated_rows_of_lines:
  assumes gen: "generateMissing P em (snd (readECData P ecData ([], [])))
      ex (fst (readECData P ecData ([], [])))
      \<lparr>rowsToAdd = [], matchedCount = 0, missingEmailCount = 0\<rparr> = Inr g"
    and r: "r \<in> set (rowsToAdd g)"
  shows "\<exists>l\<in>set ecData. \<exists>p. linePair P l = Some p
      \<and> rowId r = CStr (fst p) \<and> rowTicketType r = CStr (snd p)
      \<and> rowKey P r = compositeKey (fst p) (snd p)"
proof -
  from generateMissing_rows [OF gen] r obtain k i e where
    i: "map_of (snd (readECData P ecData ([], []))) k = Some i" and row: "r = newRow P i e"
    by auto
  from readECData_infoGood [of P ecData] i obtain l where
    l: "l \<in> set ecData" "lineKey P l = Some k" "i = infoOfLine P l"
    unfolding infoGood_def by blast
  from l(2) have pair: "linePair P l
      = Some (trim (toStr P (ecId l)), ticketTypeOf (ticketTypeInputOf P (ecTicketType l)))"
    by (auto simp: lineKey_def linePair_def split: if_splits)
  from row l(3) have "rowId r = CStr (trim (toStr P (ecId l)))"
    and "rowTicketType r = CStr (ticketTypeOf (ticketTypeInputOf P (ecTicketType l)))"
    and "rowKey P r = compositeKey (trim (toStr P (ecId l)))
          (ticketTypeOf (ticketTypeInputOf P (ecTicketType l)))"
    by (simp_all add: newRow_def infoOfLine_def rowKey_def Let_def)
  with l(1) pair show ?thesis by force
qed

lemma run_counts_by_pair:
  assumes gen: "generateMissing P em (snd (readECData P ecData ([], [])))
      (countExisting P data Map.empty) (fst (readECData P ecData ([], [])))
      \<lparr>rowsToAdd = [], matchedCount = 0, missingEmailCount = 0\<rparr> = Inr g"
    and inj: "keysUnambiguous P ecData data"
  shows "int (length (filter (\<lambda>r. rowId r = CStr ident \<and> rowTicketType r = CStr ticketType)
                        (rowsToAdd g)))
      = max (requiredFor P ecData ident ticketType - existingFor P data ident ticketType) 0"
proof (cases "\<exists>l\<in>set ecData. linePair P l = Some (ident, ticketType)")
  case True
  then obtain l0 where l0: "l0 \<in> set ecData" "linePair P l0 = Some (ident, ticketType)" by blast
  let ?q = "(ident, ticketType)"
  let ?k = "compositeKey ident ticketType"
  from linePair_in_pairsOf [OF l0] have q: "?q \<in> set (pairsOf P ecData data)" .
  have lines: "filter (\<lambda>l. lineKey P l = Some ?k) ecData
      = filter (\<lambda>l. linePair P l = Some ?q) ecData"
  proof (rule filter_cong [OF refl])
    fix l assume l: "l \<in> set ecData"
    show "(lineKey P l = Some ?k) = (linePair P l = Some ?q)"
    proof
      assume "lineKey P l = Some ?k"
      then obtain p where p: "linePair P l = Some p" "compositeKey (fst p) (snd p) = ?k"
        by (auto simp: lineKey_linePair)
      from unambiguous_pair [OF inj linePair_in_pairsOf [OF l p(1)] q] p(2) have "p = ?q" by simp
      with p(1) show "linePair P l = Some ?q" by simp
    next
      assume "linePair P l = Some ?q"
      then show "lineKey P l = Some ?k" by (simp add: lineKey_linePair)
    qed
  qed
  have rows: "filter (\<lambda>r. existingKey P r = Some ?k) data
      = filter (\<lambda>r. storePair P r = Some ?q) data"
  proof (rule filter_cong [OF refl])
    fix r assume r: "r \<in> set data"
    show "(existingKey P r = Some ?k) = (storePair P r = Some ?q)"
    proof
      assume "existingKey P r = Some ?k"
      then obtain p where p: "storePair P r = Some p" "compositeKey (fst p) (snd p) = ?k"
        by (auto simp: existingKey_storePair)
      from unambiguous_pair [OF inj storePair_in_pairsOf [OF r p(1)] q] p(2) have "p = ?q" by simp
      with p(1) show "storePair P r = Some ?q" by simp
    next
      assume "storePair P r = Some ?q"
      then show "existingKey P r = Some ?k" by (simp add: existingKey_storePair)
    qed
  qed
  have new: "filter (\<lambda>r. rowKey P r = ?k) (rowsToAdd g)
      = filter (\<lambda>r. rowId r = CStr ident \<and> rowTicketType r = CStr ticketType) (rowsToAdd g)"
  proof (rule filter_cong [OF refl])
    fix r assume "r \<in> set (rowsToAdd g)"
    from generated_rows_of_lines [OF gen this] obtain l p where
      l: "l \<in> set ecData" "linePair P l = Some p" and
      f: "rowId r = CStr (fst p)" "rowTicketType r = CStr (snd p)"
         "rowKey P r = compositeKey (fst p) (snd p)" by blast
    show "(rowKey P r = ?k) = (rowId r = CStr ident \<and> rowTicketType r = CStr ticketType)"
    proof
      assume "rowKey P r = ?k"
      with f(3) have "compositeKey (fst p) (snd p) = compositeKey (fst ?q) (snd ?q)" by simp
      from unambiguous_pair [OF inj linePair_in_pairsOf [OF l] q this] f(1,2)
      show "rowId r = CStr ident \<and> rowTicketType r = CStr ticketType" by simp
    next
      assume "rowId r = CStr ident \<and> rowTicketType r = CStr ticketType"
      with f show "rowKey P r = ?k" by simp
    qed
  qed
  from run_counts [OF gen, of ?k] show ?thesis
    by (simp only: new requiredQuantity_def existingCount_def lines rows requiredFor_def
        existingFor_def)
next
  case False
  then have none: "filter (\<lambda>l. linePair P l = Some (ident, ticketType)) ecData = []"
    by (auto simp: filter_empty_conv)
  have "filter (\<lambda>r. rowId r = CStr ident \<and> rowTicketType r = CStr ticketType) (rowsToAdd g) = []"
  proof (rule ccontr)
    assume "filter (\<lambda>r. rowId r = CStr ident \<and> rowTicketType r = CStr ticketType) (rowsToAdd g)
        \<noteq> []"
    then obtain r where r: "r \<in> set (rowsToAdd g)" "rowId r = CStr ident"
      "rowTicketType r = CStr ticketType" by (auto simp: filter_empty_conv)
    from generated_rows_of_lines [OF gen r(1)] obtain l p where
      "l \<in> set ecData" "linePair P l = Some p" "rowId r = CStr (fst p)"
      "rowTicketType r = CStr (snd p)" by blast
    with r(2,3) have "l \<in> set ecData \<and> linePair P l = Some (ident, ticketType)"
      by (cases p) simp
    with False show False by blast
  qed
  with none show ?thesis by (simp add: requiredFor_def existingFor_def)
qed

section \<open>Dashboard lemmas\<close>

lemma dashboardScan_total:
  "tallyTotal (dashboardScan P t rs) = tallyTotal t + length (filter (\<lambda>r. truthy (rowId r)) rs)"
  by (induction rs arbitrary: t) (auto simp: dashboardStep_def Let_def)

lemma dashboardScan_checkedIn:
  "tallyCheckedIn (dashboardScan P t rs) =
     tallyCheckedIn t + length (filter (\<lambda>r. truthy (rowId r) \<and> truthy (rowCheckInTime r)) rs)"
  by (induction rs arbitrary: t) (auto simp: dashboardStep_def Let_def)

lemma dashboardStep_breakdown:
  assumes "k \<notin> set objectPrototypeNames"
  shows "tallyBreakdown (dashboardStep P r t) k =
     (if truthy (rowId r) \<and> typeLabel P r = k
      then Some \<lparr>typeTotal = typeTotal (entryOf (tallyBreakdown t) k) + 1,
                typeCheckedIn = typeCheckedIn (entryOf (tallyBreakdown t) k)
                   + (if truthy (rowCheckInTime r) then 1 else 0)\<rparr>
      else tallyBreakdown t k)"
  using assms
  by (auto simp: dashboardStep_def Let_def entryOf_def typeLabel_def orElse_def
      split: option.splits)

lemma dashboardStep_inherited:
  assumes "k \<in> set objectPrototypeNames" and "tallyBreakdown t k = None"
  shows "tallyBreakdown (dashboardStep P r t) k = None"
  using assms by (auto simp: dashboardStep_def Let_def)

lemma dashboardScan_inherited:
  assumes "k \<in> set objectPrototypeNames" and "tallyBreakdown t k = None"
  shows "tallyBreakdown (dashboardScan P t rs) k = None"
  using assms(2)
proof (induction rs arbitrary: t)
  case Nil
  then show ?case by simp
next
  case (Cons r rs)
  from dashboardStep_inherited [OF assms(1) Cons.prems]
  have "tallyBreakdown (dashboardStep P r t) k = None" .
  from Cons.IH [OF this] show ?case by simp
qed

lemma dashboardScan_breakdown:
  assumes own: "k \<notin> set objectPrototypeNames"
  shows "tallyBreakdown (dashboardScan P t rs) k =
     (if filter (\<lambda>r. truthy (rowId r) \<and> typeLabel P r = k) rs = []
      then tallyBreakdown t k
      else Some \<lparr>typeTotal = typeTotal (entryOf (tallyBreakdown t) k)
                   + length (filter (\<lambda>r. truthy (rowId r) \<and> typeLabel P r = k) rs),
                typeCheckedIn = typeCheckedIn (entryOf (tallyBreakdown t) k)
                   + length (filter (\<lambda>r. truthy (rowId r) \<and> typeLabel P r = k
                                      \<and> truthy (rowCheckInTime r)) rs)\<rparr>)"
proof (induction rs arbitrary: t)
  case Nil
  then show ?case by simp
next
  case (Cons r rs)
  note step = dashboardStep_breakdown [OF own]
  show ?case
  proof (cases "truthy (rowId r) \<and> typeLabel P r = k")
    case True
    then have e: "entryOf (tallyBreakdown (dashboardStep P r t)) k =
        \<lparr>typeTotal = typeTotal (entryOf (tallyBreakdown t) k) + 1,
         typeCheckedIn = typeCheckedIn (entryOf (tallyBreakdown t) k)
             + (if truthy (rowCheckInTime r) then 1 else 0)\<rparr>"
      by (simp add: entryOf_def step)
    have sub: "filter (\<lambda>r. truthy (rowId r) \<and> typeLabel P r = k) rs = [] \<Longrightarrow>
        filter (\<lambda>r. truthy (rowId r) \<and> typeLabel P r = k \<and> truthy (rowCheckInTime r)) rs = []"
      by (auto simp: filter_empty_conv)
    from True show ?thesis
      by (simp add: Cons.IH e) (auto simp: step sub)
  next
    case False
    have e: "tallyBreakdown (dashboardStep P r t) k = tallyBreakdown t k"
      unfolding step using False by (simp only: if_False)
    then have "entryOf (tallyBreakdown (dashboardStep P r t)) k = entryOf (tallyBreakdown t) k"
      by (simp add: entryOf_def)
    moreover from False
    have "filter (\<lambda>r. truthy (rowId r) \<and> typeLabel P r = k) (r # rs)
        = filter (\<lambda>r. truthy (rowId r) \<and> typeLabel P r = k) rs"
      and "filter (\<lambda>r. truthy (rowId r) \<and> typeLabel P r = k \<and> truthy (rowCheckInTime r)) (r # rs)
        = filter (\<lambda>r. truthy (rowId r) \<and> typeLabel P r = k \<and> truthy (rowCheckInTime r)) rs"
      by auto
    ultimately show ?thesis using e by (simp only: dashboardScan.simps Cons.IH)
  qed
qed

section \<open>Evaluation on concrete data\<close>

lemma natDigits_small: "n < 10 \<Longrightarrow> natDigits n = [48 + n]"
  by (simp add: natDigits.simps)

lemmas sync_eval =
  syncECData_def ecStep_def demoLine_def demoRow_def js_def trim_def isWhite_def
  ticketTypeInputOf_def orElse_def ticketTypeOf_def startTimeOf_def TICKET_CONFIG_def
  labelFreeInvitee_def labelOfficerInvitation_def compositeKey_def newRow_def
  quantityOf_def parseInt_def natDigits_small digitValue_def existingKey_def getOrZero_def
  objectPrototypeNames_def Let_def

section \<open>Check-in by token\<close>

text \<open>
  Claim C1, as the code has it. The scan returns at the first row whose token equals the
  given one, so the property holds of that row: when the first row in scan order whose token
  cell equals a non-empty token has no check-in time, the call returns \<open>SUCCESS\<close> and writes
  the call's time into that row's CheckInTime cell and nothing else; a second call with the
  same token returns \<open>WARNING\<close>, reports the formatted time of the first call (not of the
  second), leaves CheckInTime as it was and replaces the ReEntryHistory cell by the old
  history, a newline and the new timestamp (by the timestamp alone when there was no
  history).
\<close>

theorem checkInUser_first_then_reentry:
  assumes "token \<noteq> []" and "i < length data"
    and "rowToken (data ! i) = CStr token"
    and "\<forall>j<i. rowToken (data ! j) \<noteq> CStr token"
    and "\<not> truthy (rowCheckInTime (data ! i))"
  shows "status (fst (checkInUser P t1 token data)) = Some SUCCESS
    \<and> outCheckInTime (fst (checkInUser P t1 token data)) = Some (formatDate P t1)
    \<and> snd (checkInUser P t1 token data) = data[i := (data ! i)\<lparr>rowCheckInTime := CDate t1\<rparr>]
    \<and> status (fst (checkInUser P t2 token (snd (checkInUser P t1 token data)))) = Some WARNING
    \<and> outCheckInTime (fst (checkInUser P t2 token (snd (checkInUser P t1 token data))))
        = Some (formatDate P t1)
    \<and> snd (checkInUser P t2 token (snd (checkInUser P t1 token data)))
        = data[i := (data ! i)\<lparr>rowCheckInTime := CDate t1,
             rowReEntryHistory := CStr (if truthy (rowReEntryHistory (data ! i))
                then toStr P (rowReEntryHistory (data ! i)) @ [10] @ formatDate P t2
                else formatDate P t2)\<rparr>]"
proof -
  let ?r = "data ! i"
  let ?d1 = "data[i := recordCheckIn t1 ?r]"
  have first: "checkInUser P t1 token data = (successOutcome P t1 ?r, ?d1)"
    using assms tokenScan_first [of i data token P t1] by (simp add: checkInUser_def)
  have len: "i < length ?d1" using assms(2) by simp
  have tok: "rowToken (?d1 ! i) = CStr token"
    using assms(2,3) by (simp add: recordCheckIn_def)
  have before: "\<forall>j<i. rowToken (?d1 ! j) \<noteq> CStr token"
    using assms(4) by simp
  have set: "truthy (rowCheckInTime (?d1 ! i))"
    using assms(2) by (simp add: recordCheckIn_def)
  have second: "checkInUser P t2 token ?d1 =
      (warningOutcome P (?d1 ! i), ?d1[i := logReEntry P t2 (?d1 ! i)])"
    using assms(1) set tokenScan_first [OF len tok before, of P t2]
    by (simp add: checkInUser_def)
  have hist: "newHistory P t2 (rowReEntryHistory ?r) =
      (if truthy (rowReEntryHistory ?r)
       then toStr P (rowReEntryHistory ?r) @ [10] @ formatDate P t2 else formatDate P t2)"
    by (simp add: newHistory_def orElse_def Let_def)
  have snd1: "snd (checkInUser P t1 token data) = ?d1" by (simp add: first)
  have upd: "?d1[i := logReEntry P t2 (?d1 ! i)] =
      data[i := (data ! i)\<lparr>rowCheckInTime := CDate t1,
             rowReEntryHistory := CStr (if truthy (rowReEntryHistory (data ! i))
                then toStr P (rowReEntryHistory (data ! i)) @ [10] @ formatDate P t2
                else formatDate P t2)\<rparr>]"
    using assms(2) hist by (simp add: recordCheckIn_def logReEntry_def)
  have time: "outCheckInTime (warningOutcome P (?d1 ! i)) = Some (formatDate P t1)"
    using assms(2) by (simp add: warningOutcome_def recordCheckIn_def)
  show ?thesis
    unfolding snd1 second unfolding first
    using upd time by (simp add: successOutcome_def warningOutcome_def recordCheckIn_def)
qed

theorem checkInUser_first_then_reentry_witness:
  "js ''T1'' \<noteq> []
   \<and> (1::nat) < length [demoRow (js ''A0'') (js ''T0'') (CStr []) (js ''VIP Pass''),
         (demoRow (js ''A1'') (js ''T1'') (CStr []) (js ''VIP Pass''))
           \<lparr>rowReEntryHistory := CStr [1500]\<rparr>]
   \<and> status (fst (checkInUser demoPlatform 1000 (js ''T1'')
        [demoRow (js ''A0'') (js ''T0'') (CStr []) (js ''VIP Pass''),
         (demoRow (js ''A1'') (js ''T1'') (CStr []) (js ''VIP Pass''))
           \<lparr>rowReEntryHistory := CStr [1500]\<rparr>])) = Some SUCCESS
   \<and> snd (checkInUser demoPlatform 2000 (js ''T1'')
        (snd (checkInUser demoPlatform 1000 (js ''T1'')
           [demoRow (js ''A0'') (js ''T0'') (CStr []) (js ''VIP Pass''),
            (demoRow (js ''A1'') (js ''T1'') (CStr []) (js ''VIP Pass''))
              \<lparr>rowReEntryHistory := CStr [1500]\<rparr>])))
      = [demoRow (js ''A0'') (js ''T0'') (CStr []) (js ''VIP Pass''),
         (demoRow (js ''A1'') (js ''T1'') (CDate 1000) (js ''VIP Pass''))
           \<lparr>rowReEntryHistory := CStr [1500, 10, 2000]\<rparr>]
   \<and> outCheckInTime (fst (checkInUser demoPlatform 2000 (js ''T1'')
        (snd (checkInUser demoPlatform 1000 (js ''T1'')
           [demoRow (js ''A0'') (js ''T0'') (CStr []) (js ''VIP Pass''),
            (demoRow (js ''A1'') (js ''T1'') (CStr []) (js ''VIP Pass''))
              \<lparr>rowReEntryHistory := CStr [1500]\<rparr>])))) = Some [1000]"
proof -
  let ?d = "[demoRow (js ''A0'') (js ''T0'') (CStr []) (js ''VIP Pass''),
             (demoRow (js ''A1'') (js ''T1'') (CStr []) (js ''VIP Pass''))
               \<lparr>rowReEntryHistory := CStr [1500]\<rparr>]"
  have h1: "js ''T1'' \<noteq> []" by (simp add: js_def)
  have h2: "1 < length ?d" by simp
  have h3: "rowToken (?d ! 1) = CStr (js ''T1'')" by (simp add: demoRow_def)
  have h4: "\<forall>j<1. rowToken (?d ! j) \<noteq> CStr (js ''T1'')" by (simp add: demoRow_def js_def)
  have h5: "\<not> truthy (rowCheckInTime (?d ! 1))" by (simp add: demoRow_def)
  from checkInUser_first_then_reentry [OF h1 h2 h3 h4 h5, of demoPlatform 1000 2000] h1
  show ?thesis
    by (simp add: demoRow_def demoPlatform_def js_def checkInUser_def successOutcome_def
        warningOutcome_def recordCheckIn_def logReEntry_def newHistory_def orElse_def)
qed

text \<open>
  Claim C1 as stated speaks of every row with the token. With two rows sharing a token, the
  second has the token and no check-in time, yet the call answers \<open>WARNING\<close> for the first
  row and the second row's CheckInTime stays empty.
\<close>

theorem checkInUser_duplicate_token_counterexample:
  "rowToken ([demoRow (js ''A1'') (js ''T1'') (CDate 500) (js ''VIP Pass''),
              demoRow (js ''A2'') (js ''T1'') (CStr []) (js ''VIP Pass'')] ! 1) = CStr (js ''T1'')
   \<and> \<not> truthy (rowCheckInTime ([demoRow (js ''A1'') (js ''T1'') (CDate 500) (js ''VIP Pass''),
              demoRow (js ''A2'') (js ''T1'') (CStr []) (js ''VIP Pass'')] ! 1))
   \<and> status (fst (checkInUser demoPlatform 1000 (js ''T1'')
         [demoRow (js ''A1'') (js ''T1'') (CDate 500) (js ''VIP Pass''),
          demoRow (js ''A2'') (js ''T1'') (CStr []) (js ''VIP Pass'')])) = Some WARNING
   \<and> rowCheckInTime (snd (checkInUser demoPlatform 1000 (js ''T1'')
         [demoRow (js ''A1'') (js ''T1'') (CDate 500) (js ''VIP Pass''),
          demoRow (js ''A2'') (js ''T1'') (CStr []) (js ''VIP Pass'')]) ! 1) = CStr []"
  by (simp add: checkInUser_def demoRow_def js_def warningOutcome_def logReEntry_def)

text \<open>
  Claim C8 at the empty token: the object returned by the guard \<open>if (!token)\<close> has
  \<open>success: false\<close> and the token-not-provided message but no \<open>status\<close> property at all,
  where the claim expects \<open>status: 'ERROR'\<close>. The store is not modified.
\<close>

theorem checkInUser_empty_token_has_no_status:
  "checkInUser P now [] data = (bareError TokenNotProvided, data)
   \<and> status (fst (checkInUser P now [] data)) = None
   \<and> \<not> success (fst (checkInUser P now [] data))
   \<and> message (fst (checkInUser P now [] data)) = TokenNotProvided
   \<and> snd (checkInUser P now [] data) = data"
  by (simp add: checkInUser_def bareError_def)

text \<open>
  The other half of C8 holds: a non-empty token that no row stores yields \<open>ERROR\<close> with the
  invalid-ticket message and leaves the store as it was.
\<close>

lemma checkInUser_unknown_token:
  assumes "token \<noteq> []" and "\<forall>r\<in>set data. rowToken r \<noteq> CStr token"
  shows "checkInUser P now token data = (errorOutcome InvalidTicket, data)
    \<and> status (errorOutcome InvalidTicket) = Some ERROR"
  using assms tokenScan_None_iff [of P now token data]
  by (simp add: checkInUser_def errorOutcome_def)

section \<open>Check-in by member id\<close>

text \<open>
  Claim C4, as the code has it: for a non-empty member id (the empty one is answered by the
  guard \<open>if (!memberId)\<close>), if fewer matching rows are checked in than there are matching
  rows, the call returns \<open>SUCCESS\<close>, writes the call's time into the CheckInTime cell of the
  first matching row without a check-in time, and leaves every other row, and every other
  cell of that row, unchanged.
\<close>

theorem manualCheckIn_first_open_row:
  assumes "memberId \<noteq> []"
    and "length (filter (\<lambda>r. toStr P (rowId r) = memberId \<and> truthy (rowCheckInTime r)) data)
          < length (filter (\<lambda>r. toStr P (rowId r) = memberId) data)"
  shows "\<exists>i<length data.
      toStr P (rowId (data ! i)) = memberId \<and> \<not> truthy (rowCheckInTime (data ! i))
    \<and> (\<forall>j<i. toStr P (rowId (data ! j)) = memberId \<longrightarrow> truthy (rowCheckInTime (data ! j)))
    \<and> status (fst (manualCheckIn P now memberId data)) = Some SUCCESS
    \<and> snd (manualCheckIn P now memberId data) = data[i := (data ! i)\<lparr>rowCheckInTime := CDate now\<rparr>]
    \<and> length (snd (manualCheckIn P now memberId data)) = length data
    \<and> (\<forall>j<length data. j \<noteq> i \<longrightarrow> snd (manualCheckIn P now memberId data) ! j = data ! j)"
proof -
  let ?open = "\<lambda>r. toStr P (rowId r) = memberId \<and> \<not> truthy (rowCheckInTime r)"
  have "\<exists>r\<in>set data. ?open r"
  proof (rule ccontr)
    assume "\<not> (\<exists>r\<in>set data. ?open r)"
    then have "filter (\<lambda>r. toStr P (rowId r) = memberId \<and> truthy (rowCheckInTime r)) data
        = filter (\<lambda>r. toStr P (rowId r) = memberId) data"
      by (intro filter_cong) auto
    with assms(2) show False by simp
  qed
  from first_index_ex [of data ?open, OF this]
  obtain i where i: "i < length data" "?open (data ! i)" "\<forall>j<i. \<not> ?open (data ! j)" by blast
  then have before:
    "\<forall>j<i. toStr P (rowId (data ! j)) = memberId \<longrightarrow> truthy (rowCheckInTime (data ! j))"
    by blast
  from i(2) have m: "toStr P (rowId (data ! i)) = memberId"
    and c: "\<not> truthy (rowCheckInTime (data ! i))" by simp_all
  have res: "manualCheckIn P now memberId data =
      (successOutcome P now (data ! i), data[i := recordCheckIn now (data ! i)])"
    by (rule manualCheckIn_open [OF assms(1) i(1) m c before])
  have "status (fst (manualCheckIn P now memberId data)) = Some SUCCESS
      \<and> snd (manualCheckIn P now memberId data) = data[i := (data ! i)\<lparr>rowCheckInTime := CDate now\<rparr>]
      \<and> length (snd (manualCheckIn P now memberId data)) = length data
      \<and> (\<forall>j<length data. j \<noteq> i \<longrightarrow> snd (manualCheckIn P now memberId data) ! j = data ! j)"
    unfolding res by (simp add: successOutcome_def recordCheckIn_def)
  with i(1) m c before show ?thesis by blast
qed

theorem manualCheckIn_first_open_row_witness:
  "js ''A1'' \<noteq> []
   \<and> length (filter (\<lambda>r. toStr demoPlatform (rowId r) = js ''A1'' \<and> truthy (rowCheckInTime r))
         [demoRow (js ''A1'') (js ''T1'') (CDate 500) (js ''VIP Pass''),
          demoRow (js ''A1'') (js ''T2'') (CStr []) (js ''VIP Pass'')])
       < length (filter (\<lambda>r. toStr demoPlatform (rowId r) = js ''A1'')
         [demoRow (js ''A1'') (js ''T1'') (CDate 500) (js ''VIP Pass''),
          demoRow (js ''A1'') (js ''T2'') (CStr []) (js ''VIP Pass'')])
   \<and> status (fst (manualCheckIn demoPlatform 1000 (js ''A1'')
         [demoRow (js ''A1'') (js ''T1'') (CDate 500) (js ''VIP Pass''),
          demoRow (js ''A1'') (js ''T2'') (CStr []) (js ''VIP Pass'')])) = Some SUCCESS
   \<and> snd (manualCheckIn demoPlatform 1000 (js ''A1'')
         [demoRow (js ''A1'') (js ''T1'') (CDate 500) (js ''VIP Pass''),
          demoRow (js ''A1'') (js ''T2'') (CStr []) (js ''VIP Pass'')])
       = [demoRow (js ''A1'') (js ''T1'') (CDate 500) (js ''VIP Pass''),
          demoRow (js ''A1'') (js ''T2'') (CDate 1000) (js ''VIP Pass'')]"
proof -
  let ?d = "[demoRow (js ''A1'') (js ''T1'') (CDate 500) (js ''VIP Pass''),
             demoRow (js ''A1'') (js ''T2'') (CStr []) (js ''VIP Pass'')]"
  have h1: "js ''A1'' \<noteq> []" by (simp add: js_def)
  have h2: "length (filter (\<lambda>r. toStr demoPlatform (rowId r) = js ''A1'' \<and> truthy (rowCheckInTime r)) ?d)
      < length (filter (\<lambda>r. toStr demoPlatform (rowId r) = js ''A1'') ?d)"
    by (simp add: demoRow_def)
  from manualCheckIn_first_open_row [OF h1 h2, of 1000] h1 h2
  show ?thesis
    by (simp add: demoRow_def manualCheckIn_def successOutcome_def recordCheckIn_def)
qed

text \<open>
  Claim C4 as stated covers the empty member id too: a row with a blank ID cell matches it
  and has no check-in time, but the guard answers before any scan, with no \<open>status\<close> and no
  write.
\<close>

theorem manualCheckIn_empty_id_counterexample:
  "toStr demoPlatform (rowId (demoRow [] [] (CStr []) [])) = []
   \<and> \<not> truthy (rowCheckInTime (demoRow [] [] (CStr []) []))
   \<and> status (fst (manualCheckIn demoPlatform 1000 [] [demoRow [] [] (CStr []) []])) = None
   \<and> snd (manualCheckIn demoPlatform 1000 [] [demoRow [] [] (CStr []) []])
       = [demoRow [] [] (CStr []) []]"
  by (simp add: manualCheckIn_def demoRow_def bareError_def)

text \<open>
  Claim C5, as the code has it, for a non-empty member id whose matching rows all have a
  check-in time. If some row matches, the call returns \<open>WARNING\<close>, reports the formatted
  check-in time of the last matching row, replaces that row's ReEntryHistory cell by the old
  history, a newline and the new timestamp (the timestamp alone when there was no history)
  and changes no other row and no CheckInTime cell. If no row matches, it returns \<open>ERROR\<close>
  with the member-id-not-found message and the store as it was.
\<close>

theorem manualCheckIn_all_checked_or_absent:
  assumes "memberId \<noteq> []"
    and "\<forall>r\<in>set data. toStr P (rowId r) = memberId \<longrightarrow> truthy (rowCheckInTime r)"
  shows "((\<exists>r\<in>set data. toStr P (rowId r) = memberId) \<longrightarrow>
      (\<exists>i<length data. toStr P (rowId (data ! i)) = memberId
        \<and> (\<forall>j. i < j \<and> j < length data \<longrightarrow> toStr P (rowId (data ! j)) \<noteq> memberId)
        \<and> status (fst (manualCheckIn P now memberId data)) = Some WARNING
        \<and> outCheckInTime (fst (manualCheckIn P now memberId data))
            = Some (formatDate P (newDate P (rowCheckInTime (data ! i))))
        \<and> snd (manualCheckIn P now memberId data)
            = data[i := (data ! i)\<lparr>rowReEntryHistory :=
                CStr (if truthy (rowReEntryHistory (data ! i))
                      then toStr P (rowReEntryHistory (data ! i)) @ [10] @ formatDate P now
                      else formatDate P now)\<rparr>]
        \<and> map rowCheckInTime (snd (manualCheckIn P now memberId data)) = map rowCheckInTime data
        \<and> (\<forall>j<length data. j \<noteq> i \<longrightarrow> snd (manualCheckIn P now memberId data) ! j = data ! j)))
    \<and> ((\<forall>r\<in>set data. toStr P (rowId r) \<noteq> memberId) \<longrightarrow>
        status (fst (manualCheckIn P now memberId data)) = Some ERROR
      \<and> message (fst (manualCheckIn P now memberId data)) = MemberIdNotFound
      \<and> snd (manualCheckIn P now memberId data) = data)"
proof (intro conjI impI)
  assume "\<exists>r\<in>set data. toStr P (rowId r) = memberId"
  from last_index_ex [of data "\<lambda>r. toStr P (rowId r) = memberId", OF this]
  obtain i where i: "i < length data" "toStr P (rowId (data ! i)) = memberId"
    "\<forall>j. i < j \<and> j < length data \<longrightarrow> toStr P (rowId (data ! j)) \<noteq> memberId" by blast
  have res: "manualCheckIn P now memberId data =
      (warningOutcome P (data ! i), data[i := logReEntry P now (data ! i)])"
    by (rule manualCheckIn_all_checked [OF assms(1) i assms(2)])
  have times: "map rowCheckInTime (data[i := logReEntry P now (data ! i)]) = map rowCheckInTime data"
    using i(1) by (intro nth_equalityI) (auto simp: logReEntry_def nth_list_update)
  have "status (fst (manualCheckIn P now memberId data)) = Some WARNING
        \<and> outCheckInTime (fst (manualCheckIn P now memberId data))
            = Some (formatDate P (newDate P (rowCheckInTime (data ! i))))
        \<and> snd (manualCheckIn P now memberId data)
            = data[i := (data ! i)\<lparr>rowReEntryHistory :=
                CStr (if truthy (rowReEntryHistory (data ! i))
                      then toStr P (rowReEntryHistory (data ! i)) @ [10] @ formatDate P now
                      else formatDate P now)\<rparr>]
        \<and> map rowCheckInTime (snd (manualCheckIn P now memberId data)) = map rowCheckInTime data
        \<and> (\<forall>j<length data. j \<noteq> i \<longrightarrow> snd (manualCheckIn P now memberId data) ! j = data ! j)"
    unfolding res using times
    by (simp add: warningOutcome_def logReEntry_def newHistory_eq)
  with i show "\<exists>i<length data. toStr P (rowId (data ! i)) = memberId
        \<and> (\<forall>j. i < j \<and> j < length data \<longrightarrow> toStr P (rowId (data ! j)) \<noteq> memberId)
        \<and> status (fst (manualCheckIn P now memberId data)) = Some WARNING
        \<and> outCheckInTime (fst (manualCheckIn P now memberId data))
            = Some (formatDate P (newDate P (rowCheckInTime (data ! i))))
        \<and> snd (manualCheckIn P now memberId data)
            = data[i := (data ! i)\<lparr>rowReEntryHistory :=
                CStr (if truthy (rowReEntryHistory (data ! i))
                      then toStr P (rowReEntryHistory (data ! i)) @ [10] @ formatDate P now
                      else formatDate P now)\<rparr>]
        \<and> map rowCheckInTime (snd (manualCheckIn P now memberId data)) = map rowCheckInTime data
        \<and> (\<forall>j<length data. j \<noteq> i \<longrightarrow> snd (manualCheckIn P now memberId data) ! j = data ! j)"
    by blast
next
  assume none: "\<forall>r\<in>set data. toStr P (rowId r) \<noteq> memberId"
  show "status (fst (manualCheckIn P now memberId data)) = Some ERROR"
    by (simp add: manualCheckIn_no_match [OF assms(1) none] errorOutcome_def)
next
  assume none: "\<forall>r\<in>set data. toStr P (rowId r) \<noteq> memberId"
  show "message (fst (manualCheckIn P now memberId data)) = MemberIdNotFound"
    by (simp add: manualCheckIn_no_match [OF assms(1) none] errorOutcome_def)
next
  assume none: "\<forall>r\<in>set data. toStr P (rowId r) \<noteq> memberId"
  show "snd (manualCheckIn P now memberId data) = data"
    by (simp add: manualCheckIn_no_match [OF assms(1) none])
qed

theorem manualCheckIn_all_checked_or_absent_witness:
  "js ''A1'' \<noteq> []
   \<and> list_all (\<lambda>r. truthy (rowCheckInTime r))
         [demoRow (js ''A1'') (js ''T1'') (CDate 500) (js ''VIP Pass''),
          demoRow (js ''A1'') (js ''T2'') (CDate 600) (js ''VIP Pass'')]
   \<and> (\<exists>r\<in>set [demoRow (js ''A1'') (js ''T1'') (CDate 500) (js ''VIP Pass''),
                  demoRow (js ''A1'') (js ''T2'') (CDate 600) (js ''VIP Pass'')].
         toStr demoPlatform (rowId r) = js ''A1'')
   \<and> status (fst (manualCheckIn demoPlatform 1000 (js ''A1'')
         [demoRow (js ''A1'') (js ''T1'') (CDate 500) (js ''VIP Pass''),
          demoRow (js ''A1'') (js ''T2'') (CDate 600) (js ''VIP Pass'')])) = Some WARNING
   \<and> outCheckInTime (fst (manualCheckIn demoPlatform 1000 (js ''A1'')
         [demoRow (js ''A1'') (js ''T1'') (CDate 500) (js ''VIP Pass''),
          demoRow (js ''A1'') (js ''T2'') (CDate 600) (js ''VIP Pass'')])) = Some [600]
   \<and> snd (manualCheckIn demoPlatform 1000 (js ''A1'')
         [demoRow (js ''A1'') (js ''T1'') (CDate 500) (js ''VIP Pass''),
          demoRow (js ''A1'') (js ''T2'') (CDate 600) (js ''VIP Pass'')])
       = [demoRow (js ''A1'') (js ''T1'') (CDate 500) (js ''VIP Pass''),
          (demoRow (js ''A1'') (js ''T2'') (CDate 600) (js ''VIP Pass''))
            \<lparr>rowReEntryHistory := CStr [1000]\<rparr>]
   \<and> status (fst (manualCheckIn demoPlatform 1000 (js ''A1'') [])) = Some ERROR
   \<and> message (fst (manualCheckIn demoPlatform 1000 (js ''A1'') [])) = MemberIdNotFound"
proof -
  let ?d = "[demoRow (js ''A1'') (js ''T1'') (CDate 500) (js ''VIP Pass''),
             demoRow (js ''A1'') (js ''T2'') (CDate 600) (js ''VIP Pass'')]"
  have h1: "js ''A1'' \<noteq> []" by (simp add: js_def)
  have h2: "\<forall>r\<in>set ?d. toStr demoPlatform (rowId r) = js ''A1'' \<longrightarrow> truthy (rowCheckInTime r)"
    by (simp add: demoRow_def)
  have h3: "\<forall>r\<in>set ([] :: store). toStr demoPlatform (rowId r) = js ''A1''
      \<longrightarrow> truthy (rowCheckInTime r)" by simp
  from manualCheckIn_all_checked_or_absent [OF h1 h2, of 1000]
    manualCheckIn_all_checked_or_absent [OF h1 h3, of 1000] h1 h2
  show ?thesis
    by (simp add: demoRow_def demoPlatform_def manualCheckIn_def warningOutcome_def
        errorOutcome_def logReEntry_def newHistory_def orElse_def)
qed

text \<open>
  Claim C5 as stated covers the empty member id too: no row matches it in the empty store,
  and the answer is the guard's object with the member-id-not-provided message and no
  \<open>status\<close>, not \<open>ERROR\<close> with the not-found message.
\<close>

theorem manualCheckIn_empty_id_not_found_counterexample:
  "status (fst (manualCheckIn demoPlatform 1000 [] [])) = None
   \<and> message (fst (manualCheckIn demoPlatform 1000 [] [])) = MemberIdNotProvided"
  by (simp add: manualCheckIn_def bareError_def)

text \<open>
  Claim C10: in every object returned by \<open>checkInUser\<close> and by \<open>manualCheckIn\<close> the
  \<open>success\<close> flag is true exactly when \<open>status\<close> is \<open>SUCCESS\<close>. In particular a \<open>WARNING\<close>
  carries \<open>success: false\<close> although the re-entry has been written to one row's
  ReEntryHistory cell.
\<close>

theorem success_flag_iff_status_SUCCESS:
  "(success (fst (checkInUser P now token data))
      \<longleftrightarrow> status (fst (checkInUser P now token data)) = Some SUCCESS)
   \<and> (success (fst (manualCheckIn P now memberId data))
      \<longleftrightarrow> status (fst (manualCheckIn P now memberId data)) = Some SUCCESS)
   \<and> (status (fst (checkInUser P now token data)) = Some WARNING \<longrightarrow>
        \<not> success (fst (checkInUser P now token data))
        \<and> (\<exists>i<length data. snd (checkInUser P now token data)
              = data[i := (data ! i)\<lparr>rowReEntryHistory :=
                   CStr (newHistory P now (rowReEntryHistory (data ! i)))\<rparr>]))
   \<and> (status (fst (manualCheckIn P now memberId data)) = Some WARNING \<longrightarrow>
        \<not> success (fst (manualCheckIn P now memberId data))
        \<and> (\<exists>i<length data. snd (manualCheckIn P now memberId data)
              = data[i := (data ! i)\<lparr>rowReEntryHistory :=
                   CStr (newHistory P now (rowReEntryHistory (data ! i)))\<rparr>]))"
proof -
  have a: "(success (fst (checkInUser P now token data))
      \<longleftrightarrow> status (fst (checkInUser P now token data)) = Some SUCCESS)
    \<and> (status (fst (checkInUser P now token data)) = Some WARNING \<longrightarrow>
        \<not> success (fst (checkInUser P now token data))
        \<and> (\<exists>i<length data. snd (checkInUser P now token data)
              = data[i := (data ! i)\<lparr>rowReEntryHistory :=
                   CStr (newHistory P now (rowReEntryHistory (data ! i)))\<rparr>]))"
    using checkInUser_cases [of P now token data]
    by (auto simp: bareError_def errorOutcome_def warningOutcome_def successOutcome_def
        logReEntry_def)
  have b: "(success (fst (manualCheckIn P now memberId data))
      \<longleftrightarrow> status (fst (manualCheckIn P now memberId data)) = Some SUCCESS)
    \<and> (status (fst (manualCheckIn P now memberId data)) = Some WARNING \<longrightarrow>
        \<not> success (fst (manualCheckIn P now memberId data))
        \<and> (\<exists>i<length data. snd (manualCheckIn P now memberId data)
              = data[i := (data ! i)\<lparr>rowReEntryHistory :=
                   CStr (newHistory P now (rowReEntryHistory (data ! i)))\<rparr>]))"
    using manualCheckIn_cases [of P now memberId data]
    by (auto simp: bareError_def errorOutcome_def warningOutcome_def successOutcome_def
        logReEntry_def)
  from a b show ?thesis by blast
qed

theorem success_flag_iff_status_SUCCESS_witness:
  "status (fst (checkInUser demoPlatform 1000 (js ''T1'')
       [demoRow (js ''A1'') (js ''T1'') (CDate 500) (js ''VIP Pass'')])) = Some WARNING
   \<and> status (fst (manualCheckIn demoPlatform 1000 (js ''A1'')
       [demoRow (js ''A1'') (js ''T1'') (CDate 500) (js ''VIP Pass'')])) = Some WARNING
   \<and> \<not> success (fst (checkInUser demoPlatform 1000 (js ''T1'')
       [demoRow (js ''A1'') (js ''T1'') (CDate 500) (js ''VIP Pass'')]))
   \<and> \<not> success (fst (manualCheckIn demoPlatform 1000 (js ''A1'')
       [demoRow (js ''A1'') (js ''T1'') (CDate 500) (js ''VIP Pass'')]))
   \<and> snd (checkInUser demoPlatform 1000 (js ''T1'')
       [demoRow (js ''A1'') (js ''T1'') (CDate 500) (js ''VIP Pass'')])
      = [(demoRow (js ''A1'') (js ''T1'') (CDate 500) (js ''VIP Pass''))
           \<lparr>rowReEntryHistory := CStr [1000]\<rparr>]"
proof -
  let ?d = "[demoRow (js ''A1'') (js ''T1'') (CDate 500) (js ''VIP Pass'')]"
  have w1: "status (fst (checkInUser demoPlatform 1000 (js ''T1'') ?d)) = Some WARNING"
    by (simp add: checkInUser_def demoRow_def js_def warningOutcome_def)
  have w2: "status (fst (manualCheckIn demoPlatform 1000 (js ''A1'') ?d)) = Some WARNING"
    by (simp add: manualCheckIn_def demoRow_def js_def warningOutcome_def)
  from success_flag_iff_status_SUCCESS [of demoPlatform 1000 "js ''T1''" ?d "js ''A1''"] w1 w2
  have "\<not> success (fst (checkInUser demoPlatform 1000 (js ''T1'') ?d))
      \<and> \<not> success (fst (manualCheckIn demoPlatform 1000 (js ''A1'') ?d))" by simp
  moreover have "snd (checkInUser demoPlatform 1000 (js ''T1'') ?d)
      = [(demoRow (js ''A1'') (js ''T1'') (CDate 500) (js ''VIP Pass''))
           \<lparr>rowReEntryHistory := CStr [1000]\<rparr>]"
    by (simp add: checkInUser_def demoRow_def demoPlatform_def js_def logReEntry_def
        newHistory_def orElse_def)
  ultimately show ?thesis using w1 w2 by simp
qed

section \<open>Ticket taxonomy\<close>

text \<open>
  Claim C6 at a failing input. A label that is neither renamed by the chain nor a key of
  \<open>TICKET_CONFIG\<close> should receive the default window. The label \<open>constructor\<close> is neither,
  but \<open>TICKET_CONFIG['constructor']\<close> is the member that the object literal inherits, a
  truthy value, so \<open>|| '11:00-12:00'\<close> does not apply: the start time kept for the line and
  placed into the row it creates is that inherited member, not \<open>11:00-12:00\<close>.
\<close>

theorem startTimeOf_inherited_name_not_default:
  "js ''constructor'' \<notin> set chainLabels
   \<and> js ''constructor'' \<notin> fst ` set TICKET_CONFIG
   \<and> ticketTypeOf (ticketTypeInputOf demoPlatform (CStr (js ''constructor''))) = js ''constructor''
   \<and> startTimeOf (ticketTypeOf (ticketTypeInputOf demoPlatform (CStr (js ''constructor''))))
        = CProto (js ''constructor'')
   \<and> syncECData demoPlatform (demoSheets [] [demoLine (js ''A1'') (js ''constructor'') (CNum 1)])
     = Inr (Synced 1 0 1,
         (demoSheets [] [demoLine (js ''A1'') (js ''constructor'') (CNum 1)])
         \<lparr>attendees := [(demoRow (js ''A1'') [] (CStr []) (js ''constructor''))
                          \<lparr>rowStartTime := CProto (js ''constructor'')\<rparr>]\<rparr>)"
  by (simp add: demoSheets_def chainLabels_def sync_eval)

text \<open>
  The rest of C6 holds. Reading a label, renaming it and looking up its window are total
  functions with no failing branch, and every cell yields a truthy start time. The label
  \<open>15400\<close> becomes \<open>PriorityPass\<close> with window \<open>18:30-19:00\<close>, the officers' invitation label
  becomes \<open>VIP Pass\<close> with window \<open>18:30-19:00\<close>. A label that the chain does not rename
  passes through unchanged, and if it is neither a key of \<open>TICKET_CONFIG\<close> nor the name of an
  inherited member it receives the default window \<open>11:00-12:00\<close>. The label read from a text
  cell is the cell's text itself when that text is non-empty and has no white space at
  either end.
\<close>

lemma ticket_normalization:
  "ticketTypeOf (ticketTypeInputOf P (CStr (js ''15400''))) = js ''PriorityPass''
   \<and> startTimeOf (ticketTypeOf (ticketTypeInputOf P (CStr (js ''15400''))))
        = CStr (js ''18:30-19:00'')
   \<and> ticketTypeOf (ticketTypeInputOf P (CStr labelOfficerInvitation)) = js ''VIP Pass''
   \<and> startTimeOf (ticketTypeOf (ticketTypeInputOf P (CStr labelOfficerInvitation)))
        = CStr (js ''18:30-19:00'')
   \<and> (t \<notin> set chainLabels \<longrightarrow> ticketTypeOf t = t)
   \<and> (t \<notin> set chainLabels \<and> t \<notin> fst ` set TICKET_CONFIG \<and> t \<notin> set objectPrototypeNames
        \<longrightarrow> startTimeOf (ticketTypeOf t) = CStr (js ''11:00-12:00''))
   \<and> (s \<noteq> [] \<and> \<not> isWhite (hd s) \<and> \<not> isWhite (last s)
        \<longrightarrow> ticketTypeInputOf P (CStr s) = s)
   \<and> truthy (startTimeOf (ticketTypeOf (ticketTypeInputOf P c)))"
proof -
  have some: "truthy (startTimeOf u)" for u
    by (simp add: startTimeOf_def orElse_def js_def split: option.splits)
  have ex1: "ticketTypeInputOf P (CStr (js ''15400'')) = js ''15400''"
    by (simp add: ticketTypeInputOf_def orElse_def trim_def isWhite_def js_def)
  have ex2: "ticketTypeInputOf P (CStr labelOfficerInvitation) = labelOfficerInvitation"
    by (simp add: ticketTypeInputOf_def orElse_def trim_def isWhite_def labelOfficerInvitation_def)
  have r1: "ticketTypeOf (js ''15400'') = js ''PriorityPass''"
    by (simp add: ticketTypeOf_def)
  have r2: "ticketTypeOf labelOfficerInvitation = js ''VIP Pass''"
    by (simp add: ticketTypeOf_def js_def labelOfficerInvitation_def labelFreeInvitee_def)
  have w1: "startTimeOf (js ''PriorityPass'') = CStr (js ''18:30-19:00'')"
    by (simp add: startTimeOf_def TICKET_CONFIG_def orElse_def js_def)
  have w2: "startTimeOf (js ''VIP Pass'') = CStr (js ''18:30-19:00'')"
    by (simp add: startTimeOf_def TICKET_CONFIG_def orElse_def js_def)
  have pass: "t \<notin> set chainLabels \<longrightarrow> ticketTypeOf t = t"
    by (simp add: ticketTypeOf_def chainLabels_def)
  have dflt: "t \<notin> set chainLabels \<and> t \<notin> fst ` set TICKET_CONFIG \<and> t \<notin> set objectPrototypeNames
      \<longrightarrow> startTimeOf (ticketTypeOf t) = CStr (js ''11:00-12:00'')"
  proof
    assume a: "t \<notin> set chainLabels \<and> t \<notin> fst ` set TICKET_CONFIG
        \<and> t \<notin> set objectPrototypeNames"
    with pass have "ticketTypeOf t = t" by simp
    moreover from a have "map_of TICKET_CONFIG t = None" by (simp add: map_of_eq_None_iff)
    ultimately show "startTimeOf (ticketTypeOf t) = CStr (js ''11:00-12:00'')"
      using a by (simp add: startTimeOf_def)
  qed
  have read: "s \<noteq> [] \<and> \<not> isWhite (hd s) \<and> \<not> isWhite (last s)
      \<longrightarrow> ticketTypeInputOf P (CStr s) = s"
  proof
    assume a: "s \<noteq> [] \<and> \<not> isWhite (hd s) \<and> \<not> isWhite (last s)"
    then have front: "dropWhile isWhite s = s" by (cases s) auto
    from a have "rev s \<noteq> []" and "\<not> isWhite (hd (rev s))" by (simp_all add: hd_rev)
    then have "dropWhile isWhite (rev s) = rev s" by (cases "rev s") auto
    with front a show "ticketTypeInputOf P (CStr s) = s"
      by (simp add: ticketTypeInputOf_def orElse_def trim_def)
  qed
  from ex1 ex2 r1 r2 w1 w2 pass dflt read some show ?thesis by simp
qed

section \<open>Reconciliation\<close>

text \<open>
  Claim C3, as the code has it. When both auxiliary sheets have content and the joined text
  \<open>id_ticketType\<close> tells the (id, ticket type) pairs of the order lines and of the store
  rows apart, \<open>syncECData\<close> appends rows to the store and changes nothing else, and for every
  id and ticket type the number of appended rows with that id and that type is
  \<open>max (required - existing) 0\<close>. Here \<open>required\<close> is the sum, over the order lines of that id
  and canonical type, of \<open>parseInt(quantity) || 1\<close>, so that a missing or unparseable quantity
  counts as 1 and so does a quantity of zero; \<open>existing\<close> is the number of store rows of
  that id and type, their cells read as trimmed text and a blank TicketType as
  \<open>StandardPass\<close>. Every appended row has empty Token, CheckInTime, EmailSent and
  ReEntryHistory.
\<close>

theorem syncECData_creates_shortfall:
  assumes "ecDataSheet S = Some ecData" and "memberMasterSheet S = Some masterData"
    and "keysUnambiguous P ecData (attendees S)"
  shows "\<exists>new matched missing.
      syncECData P S = Inr (Synced (length new) matched missing, S\<lparr>attendees := attendees S @ new\<rparr>)
    \<and> (\<forall>ident ticketType.
          int (length (filter (\<lambda>r. rowId r = CStr ident \<and> rowTicketType r = CStr ticketType) new))
          = max (requiredFor P ecData ident ticketType
                 - existingFor P (attendees S) ident ticketType) 0)
    \<and> (\<forall>r\<in>set new. rowToken r = CStr [] \<and> rowCheckInTime r = CStr []
          \<and> rowEmailSent r = CStr [] \<and> rowReEntryHistory r = CStr [])"
proof -
  from syncECData_run [OF assms(1,2), of P] obtain g where
    gen: "generateMissing P (readMemberMaster P masterData Map.empty)
            (snd (readECData P ecData ([], []))) (countExisting P (attendees S) Map.empty)
            (fst (readECData P ecData ([], [])))
            \<lparr>rowsToAdd = [], matchedCount = 0, missingEmailCount = 0\<rparr> = Inr g"
    and res: "syncECData P S = Inr (Synced (length (rowsToAdd g)) (matchedCount g)
            (missingEmailCount g), S\<lparr>attendees := attendees S @ rowsToAdd g\<rparr>)" by blast
  have counts: "\<forall>ident ticketType.
      int (length (filter (\<lambda>r. rowId r = CStr ident \<and> rowTicketType r = CStr ticketType)
                     (rowsToAdd g)))
      = max (requiredFor P ecData ident ticketType
             - existingFor P (attendees S) ident ticketType) 0"
    using run_counts_by_pair [OF gen assms(3)] by blast
  have blank: "\<forall>r\<in>set (rowsToAdd g). rowToken r = CStr [] \<and> rowCheckInTime r = CStr []
          \<and> rowEmailSent r = CStr [] \<and> rowReEntryHistory r = CStr []"
    using generateMissing_rows [OF gen] by (auto simp: newRow_def Let_def)
  show ?thesis
    by (rule exI [of _ "rowsToAdd g"], rule exI [of _ "matchedCount g"],
        rule exI [of _ "missingEmailCount g"])
       (intro conjI; (rule res | rule counts | rule blank))
qed

text \<open>
  The instance of the claim: required quantity 3 and one existing row of the pair give
  exactly two new rows of the pair, next to the row of another member.
\<close>

theorem syncECData_creates_shortfall_witness:
  "keysUnambiguous demoPlatform
       [demoLine (js ''A1'') (js ''VIP Pass'') (CNum 3), demoLine (js ''B2'') (js ''15400'') (CNum 1)]
       [demoRow (js ''A1'') (js ''T1'') (CStr []) (js ''VIP Pass'')]
   \<and> requiredFor demoPlatform
       [demoLine (js ''A1'') (js ''VIP Pass'') (CNum 3), demoLine (js ''B2'') (js ''15400'') (CNum 1)]
       (js ''A1'') (js ''VIP Pass'') = 3
   \<and> existingFor demoPlatform [demoRow (js ''A1'') (js ''T1'') (CStr []) (js ''VIP Pass'')]
       (js ''A1'') (js ''VIP Pass'') = 1
   \<and> (\<exists>new matched missing.
        syncECData demoPlatform
          (demoSheets [demoRow (js ''A1'') (js ''T1'') (CStr []) (js ''VIP Pass'')]
             [demoLine (js ''A1'') (js ''VIP Pass'') (CNum 3),
              demoLine (js ''B2'') (js ''15400'') (CNum 1)])
        = Inr (Synced (length new) matched missing,
            (demoSheets [demoRow (js ''A1'') (js ''T1'') (CStr []) (js ''VIP Pass'')]
               [demoLine (js ''A1'') (js ''VIP Pass'') (CNum 3),
                demoLine (js ''B2'') (js ''15400'') (CNum 1)])
            \<lparr>attendees := [demoRow (js ''A1'') (js ''T1'') (CStr []) (js ''VIP Pass'')] @ new\<rparr>)
        \<and> int (length (filter (\<lambda>r. rowId r = CStr (js ''A1'')
                                   \<and> rowTicketType r = CStr (js ''VIP Pass'')) new)) = 2
        \<and> int (length (filter (\<lambda>r. rowId r = CStr (js ''B2'')
                                   \<and> rowTicketType r = CStr (js ''PriorityPass'')) new)) = 1)"
proof -
  let ?store = "[demoRow (js ''A1'') (js ''T1'') (CStr []) (js ''VIP Pass'')]"
  let ?lines = "[demoLine (js ''A1'') (js ''VIP Pass'') (CNum 3),
                 demoLine (js ''B2'') (js ''15400'') (CNum 1)]"
  let ?S = "demoSheets ?store ?lines"
  have h1: "ecDataSheet ?S = Some ?lines" by (simp add: demoSheets_def)
  have h2: "memberMasterSheet ?S = Some []" by (simp add: demoSheets_def)
  have att: "attendees ?S = ?store" by (simp add: demoSheets_def)
  have h3: "keysUnambiguous demoPlatform ?lines ?store"
    by (simp add: keysUnambiguous_def pairsOf_def linePair_def storePair_def sync_eval)
  from h3 att have h3': "keysUnambiguous demoPlatform ?lines (attendees ?S)" by simp
  have rq: "requiredFor demoPlatform ?lines (js ''A1'') (js ''VIP Pass'') = 3"
    by (simp add: requiredFor_def linePair_def sync_eval)
  have ex: "existingFor demoPlatform ?store (js ''A1'') (js ''VIP Pass'') = 1"
    by (simp add: existingFor_def storePair_def sync_eval)
  have rq2: "requiredFor demoPlatform ?lines (js ''B2'') (js ''PriorityPass'') = 1"
    by (simp add: requiredFor_def linePair_def sync_eval)
  have ex2: "existingFor demoPlatform ?store (js ''B2'') (js ''PriorityPass'') = 0"
    by (simp add: existingFor_def storePair_def sync_eval)
  from syncECData_creates_shortfall [OF h1 h2 h3']
  obtain new matched missing where
    res: "syncECData demoPlatform ?S
        = Inr (Synced (length new) matched missing, ?S\<lparr>attendees := attendees ?S @ new\<rparr>)"
    and cnt: "\<forall>ident ticketType.
        int (length (filter (\<lambda>r. rowId r = CStr ident \<and> rowTicketType r = CStr ticketType) new))
        = max (requiredFor demoPlatform ?lines ident ticketType
               - existingFor demoPlatform (attendees ?S) ident ticketType) 0"
    by blast
  from cnt att rq ex
  have two: "int (length (filter (\<lambda>r. rowId r = CStr (js ''A1'')
                                   \<and> rowTicketType r = CStr (js ''VIP Pass'')) new)) = 2"
    by simp
  from cnt att rq2 ex2
  have one: "int (length (filter (\<lambda>r. rowId r = CStr (js ''B2'')
                                   \<and> rowTicketType r = CStr (js ''PriorityPass'')) new)) = 1"
    by simp
  from res att have "syncECData demoPlatform ?S
        = Inr (Synced (length new) matched missing, ?S\<lparr>attendees := ?store @ new\<rparr>)" by simp
  with two one have "\<exists>new matched missing.
        syncECData demoPlatform ?S
        = Inr (Synced (length new) matched missing, ?S\<lparr>attendees := ?store @ new\<rparr>)
        \<and> int (length (filter (\<lambda>r. rowId r = CStr (js ''A1'')
                                   \<and> rowTicketType r = CStr (js ''VIP Pass'')) new)) = 2
        \<and> int (length (filter (\<lambda>r. rowId r = CStr (js ''B2'')
                                   \<and> rowTicketType r = CStr (js ''PriorityPass'')) new)) = 1"
    by blast
  with h3 rq ex show ?thesis by simp
qed

text \<open>
  Claim C3 as stated lets only a missing or unparseable quantity count as 1. A quantity
  cell holding 0 parses to 0, so the claim's required quantity is 0 and no row is due, but
  \<open>parseInt(0) || 1\<close> is 1 and one row is appended. While the MemberMaster sheet has no
  content the function writes that sheet's header and returns, appending no row whatever
  the order lines require. And a store row whose ID cell is \<open>A1\<close> followed by a space and
  whose TicketType cell is blank is counted by step 3 as an existing \<open>StandardPass\<close> row of
  \<open>A1\<close>, so that an order line for one \<open>StandardPass\<close> of \<open>A1\<close> appends nothing.
\<close>

theorem syncECData_zero_quantity_counterexample:
  "parseInt (toStr demoPlatform (CNum 0)) = Some 0
   \<and> syncECData demoPlatform (demoSheets [] [demoLine (js ''A1'') (js ''VIP Pass'') (CNum 0)])
     = Inr (Synced 1 0 1,
         (demoSheets [] [demoLine (js ''A1'') (js ''VIP Pass'') (CNum 0)])
         \<lparr>attendees := [(demoRow (js ''A1'') [] (CStr []) (js ''VIP Pass''))
                          \<lparr>rowStartTime := CStr (js ''18:30-19:00'')\<rparr>]\<rparr>)
   \<and> syncECData demoPlatform
        \<lparr>attendees = [], ecDataSheet = Some [demoLine (js ''A1'') (js ''VIP Pass'') (CNum 2)],
         memberMasterSheet = None\<rparr>
     = Inr (FillMemberMaster,
        \<lparr>attendees = [], ecDataSheet = Some [demoLine (js ''A1'') (js ''VIP Pass'') (CNum 2)],
         memberMasterSheet = Some []\<rparr>)
   \<and> syncECData demoPlatform
        (demoSheets [demoRow (js ''A1 '') [] (CStr []) []]
           [demoLine (js ''A1'') (js ''StandardPass'') (CNum 1)])
     = Inr (Synced 0 0 0,
        demoSheets [demoRow (js ''A1 '') [] (CStr []) []]
          [demoLine (js ''A1'') (js ''StandardPass'') (CNum 1)])"
  by (simp add: demoSheets_def sync_eval)

text \<open>
  Joining id and type with \<open>_\<close> does not tell every two pairs apart, and the statement above
  leaves such inputs out. The order lines (\<open>A\<close>, \<open>B_C\<close>) and (\<open>A_B\<close>, \<open>C\<close>) are counted under
  the one key \<open>A_B_C\<close>: two rows are created for member \<open>A\<close> and none for member \<open>A_B\<close>.
\<close>

lemma syncECData_key_collision:
  "\<not> keysUnambiguous demoPlatform
       [demoLine (js ''A'') (js ''B_C'') (CNum 1), demoLine (js ''A_B'') (js ''C'') (CNum 1)] []
   \<and> syncECData demoPlatform
        (demoSheets [] [demoLine (js ''A'') (js ''B_C'') (CNum 1),
                        demoLine (js ''A_B'') (js ''C'') (CNum 1)])
     = Inr (Synced 2 0 1,
        demoSheets [(demoRow (js ''A'') [] (CStr []) (js ''B_C''))
                      \<lparr>rowStartTime := CStr (js ''11:00-12:00'')\<rparr>,
                    (demoRow (js ''A'') [] (CStr []) (js ''B_C''))
                      \<lparr>rowStartTime := CStr (js ''11:00-12:00'')\<rparr>]
          [demoLine (js ''A'') (js ''B_C'') (CNum 1), demoLine (js ''A_B'') (js ''C'') (CNum 1)])"
  by (simp add: keysUnambiguous_def pairsOf_def linePair_def demoSheets_def sync_eval
      numeral_2_eq_2)

text \<open>
  Claim C2, as the code has it. Once the ECData and the MemberMaster sheet both have
  content, and every order line that is counted has a label that is not empty after
  trimming, reconciliation is idempotent: each appended row is counted by step 3 of the next
  run under the key it was created for, so after a run the existing count of every key is at
  least the required one, and a second run on the resulting sheets appends no row and leaves
  the sheets as they are.
\<close>

theorem syncECData_second_run_adds_nothing:
  assumes ec: "ecDataSheet S = Some ecData" and mm: "memberMasterSheet S = Some masterData"
    and labels: "\<forall>l\<in>set ecData. trim (toStr P (ecId l)) \<noteq> []
      \<longrightarrow> ticketTypeInputOf P (ecTicketType l) \<noteq> []"
    and first: "syncECData P S = Inr (m, S')"
  shows "\<exists>matched missing. syncECData P S' = Inr (Synced 0 matched missing, S')"
proof -
  let ?em = "readMemberMaster P masterData Map.empty"
  from syncECData_run [OF ec mm, of P] first obtain g where
    gen: "generateMissing P ?em (snd (readECData P ecData ([], [])))
      (countExisting P (attendees S) Map.empty) (fst (readECData P ecData ([], [])))
      \<lparr>rowsToAdd = [], matchedCount = 0, missingEmailCount = 0\<rparr> = Inr g"
    and S': "S' = S\<lparr>attendees := attendees S @ rowsToAdd g\<rparr>" by auto
  from S' ec mm have ec': "ecDataSheet S' = Some ecData"
    and mm': "memberMasterSheet S' = Some masterData"
    and att': "attendees S' = attendees S @ rowsToAdd g" by simp_all
  from syncECData_run [OF ec' mm', of P] obtain g2 where
    gen2: "generateMissing P ?em (snd (readECData P ecData ([], [])))
      (countExisting P (attendees S') Map.empty) (fst (readECData P ecData ([], [])))
      \<lparr>rowsToAdd = [], matchedCount = 0, missingEmailCount = 0\<rparr> = Inr g2"
    and res2: "syncECData P S' = Inr (Synced (length (rowsToAdd g2)) (matchedCount g2)
      (missingEmailCount g2), S'\<lparr>attendees := attendees S' @ rowsToAdd g2\<rparr>)" by blast
  have keys: "\<forall>r\<in>set (rowsToAdd g). existingKey P r = Some (rowKey P r)"
    by (rule run_rows_keys [OF gen labels])
  have none: "int (length (filter (\<lambda>r. rowKey P r = key) (rowsToAdd g2))) = 0" for key
  proof -
    have "existingCount P (attendees S') key
        = existingCount P (attendees S) key
          + max (requiredQuantity P ecData key - existingCount P (attendees S) key) 0"
      unfolding att' existingCount_append [OF keys] run_counts [OF gen] ..
    with run_counts [OF gen2, of key] show ?thesis by simp
  qed
  have "rowsToAdd g2 = []"
  proof (rule ccontr)
    assume "rowsToAdd g2 \<noteq> []"
    then obtain r where r: "r \<in> set (rowsToAdd g2)" by (cases "rowsToAdd g2") auto
    then have "filter (\<lambda>x. rowKey P x = rowKey P r) (rowsToAdd g2) \<noteq> []"
      by (auto simp: filter_empty_conv)
    with none [of "rowKey P r"] show False by simp
  qed
  with res2 show ?thesis by simp
qed

theorem syncECData_second_run_adds_nothing_witness:
  "syncECData demoPlatform (demoSheets [] [demoLine (js ''A1'') (js ''15400'') (CNum 2)])
     = Inr (Synced 2 0 1,
        demoSheets [(demoRow (js ''A1'') [] (CStr []) (js ''PriorityPass''))
                      \<lparr>rowStartTime := CStr (js ''18:30-19:00'')\<rparr>,
                    (demoRow (js ''A1'') [] (CStr []) (js ''PriorityPass''))
                      \<lparr>rowStartTime := CStr (js ''18:30-19:00'')\<rparr>]
          [demoLine (js ''A1'') (js ''15400'') (CNum 2)])
   \<and> (\<exists>matched missing.
        syncECData demoPlatform
          (demoSheets [(demoRow (js ''A1'') [] (CStr []) (js ''PriorityPass''))
                         \<lparr>rowStartTime := CStr (js ''18:30-19:00'')\<rparr>,
                       (demoRow (js ''A1'') [] (CStr []) (js ''PriorityPass''))
                         \<lparr>rowStartTime := CStr (js ''18:30-19:00'')\<rparr>]
             [demoLine (js ''A1'') (js ''15400'') (CNum 2)])
        = Inr (Synced 0 matched missing,
            demoSheets [(demoRow (js ''A1'') [] (CStr []) (js ''PriorityPass''))
                          \<lparr>rowStartTime := CStr (js ''18:30-19:00'')\<rparr>,
                        (demoRow (js ''A1'') [] (CStr []) (js ''PriorityPass''))
                          \<lparr>rowStartTime := CStr (js ''18:30-19:00'')\<rparr>]
              [demoLine (js ''A1'') (js ''15400'') (CNum 2)]))"
proof -
  let ?lines = "[demoLine (js ''A1'') (js ''15400'') (CNum 2)]"
  let ?S = "demoSheets [] ?lines"
  let ?S' = "demoSheets [(demoRow (js ''A1'') [] (CStr []) (js ''PriorityPass''))
                           \<lparr>rowStartTime := CStr (js ''18:30-19:00'')\<rparr>,
                         (demoRow (js ''A1'') [] (CStr []) (js ''PriorityPass''))
                           \<lparr>rowStartTime := CStr (js ''18:30-19:00'')\<rparr>] ?lines"
  have h1: "ecDataSheet ?S = Some ?lines" by (simp add: demoSheets_def)
  have h2: "memberMasterSheet ?S = Some []" by (simp add: demoSheets_def)
  have h3: "\<forall>l\<in>set ?lines. trim (toStr demoPlatform (ecId l)) \<noteq> []
      \<longrightarrow> ticketTypeInputOf demoPlatform (ecTicketType l) \<noteq> []"
    by (simp add: sync_eval)
  have h4: "syncECData demoPlatform ?S = Inr (Synced 2 0 1, ?S')"
    by (simp add: demoSheets_def sync_eval numeral_2_eq_2)
  from syncECData_second_run_adds_nothing [OF h1 h2 h3 h4] h4 show ?thesis by simp
qed

text \<open>
  Claim C2 as stated holds for every member directory. While the MemberMaster sheet has no
  content, the first run only writes that sheet's header and returns; the second run, with
  the same order lines, the same (empty) directory and the same store, then appends the
  rows that the order lines require.
\<close>

theorem syncECData_blank_directory_counterexample:
  "syncECData demoPlatform
      \<lparr>attendees = [], ecDataSheet = Some [demoLine (js ''A1'') (js ''15400'') (CNum 1)],
       memberMasterSheet = None\<rparr>
     = Inr (FillMemberMaster,
        \<lparr>attendees = [], ecDataSheet = Some [demoLine (js ''A1'') (js ''15400'') (CNum 1)],
         memberMasterSheet = Some []\<rparr>)
   \<and> syncECData demoPlatform
      \<lparr>attendees = [], ecDataSheet = Some [demoLine (js ''A1'') (js ''15400'') (CNum 1)],
       memberMasterSheet = Some []\<rparr>
     = Inr (Synced 1 0 1,
        \<lparr>attendees = [(demoRow (js ''A1'') [] (CStr []) (js ''PriorityPass''))
                         \<lparr>rowStartTime := CStr (js ''18:30-19:00'')\<rparr>],
         ecDataSheet = Some [demoLine (js ''A1'') (js ''15400'') (CNum 1)],
         memberMasterSheet = Some []\<rparr>)"
  by (simp add: sync_eval)

text \<open>
  A label cell that holds only spaces breaks the property in another way, which the
  statement above leaves out. The line is read as the empty ticket type (the default
  \<open>'StandardPass'\<close> is applied before \<open>trim\<close>), and the row created for it is written with
  an empty TicketType. Step 3 of the next run reads that cell as \<open>'StandardPass'\<close>, counts
  the row under another key, and the same inputs produce one more row on every run.
\<close>

lemma syncECData_blank_label_not_idempotent:
  "syncECData demoPlatform (demoSheets [] [demoLine (js ''A1'') (js ''  '') (CNum 1)])
     = Inr (Synced 1 0 1,
        demoSheets [(demoRow (js ''A1'') [] (CStr []) [])
                      \<lparr>rowStartTime := CStr (js ''11:00-12:00'')\<rparr>]
          [demoLine (js ''A1'') (js ''  '') (CNum 1)])
   \<and> syncECData demoPlatform
        (demoSheets [(demoRow (js ''A1'') [] (CStr []) [])
                       \<lparr>rowStartTime := CStr (js ''11:00-12:00'')\<rparr>]
           [demoLine (js ''A1'') (js ''  '') (CNum 1)])
     = Inr (Synced 1 0 1,
        demoSheets [(demoRow (js ''A1'') [] (CStr []) [])
                      \<lparr>rowStartTime := CStr (js ''11:00-12:00'')\<rparr>,
                    (demoRow (js ''A1'') [] (CStr []) [])
                      \<lparr>rowStartTime := CStr (js ''11:00-12:00'')\<rparr>]
          [demoLine (js ''A1'') (js ''  '') (CNum 1)])"
  by (simp add: demoSheets_def sync_eval)


text \<open>
  Claim C7 at a failing input. \<open>TICKET_CONFIG\<close> lists \<open>VIP\<close> and \<open>General\<close> among its
  legacy mappings for the EC data sync, next to \<open>15400\<close>, \<open>13200\<close>, \<open>1100\<close> and \<open>Invitation\<close>,
  which the chain that maps old inputs to the new ticket type names does rename. It has no
  branch for \<open>VIP\<close> and \<open>General\<close>: an order line labelled \<open>VIP\<close> is written to the store with
  the legacy ticket type \<open>VIP\<close>, where the claim promises a canonical type.
\<close>

theorem syncECData_VIP_not_renamed:
  "ticketTypeOf (js ''VIP'') = js ''VIP''
   \<and> ticketTypeOf (js ''General'') = js ''General''
   \<and> syncECData demoPlatform (demoSheets [] [demoLine (js ''A1'') (js ''VIP'') (CNum 1)])
     = Inr (Synced 1 0 1,
         (demoSheets [] [demoLine (js ''A1'') (js ''VIP'') (CNum 1)])
         \<lparr>attendees := [(demoRow (js ''A1'') [] (CStr []) (js ''VIP''))
                          \<lparr>rowStartTime := CStr (js ''18:30-19:00'')\<rparr>]\<rparr>)"
  by (simp add: demoSheets_def sync_eval)

text \<open>
  What the chain does achieve: every row that \<open>syncECData\<close> appends carries as ticket type
  the chain's result for the label of some order line, and that is never one of the labels
  the chain compares with, each of which it replaces by a new ticket type name.
\<close>

lemma syncECData_never_writes_chain_label:
  assumes "ecDataSheet S = Some ecData" and "memberMasterSheet S = Some masterData"
  shows "\<exists>new matched missing.
      syncECData P S = Inr (Synced (length new) matched missing, S\<lparr>attendees := attendees S @ new\<rparr>)
    \<and> (\<forall>r\<in>set new. \<exists>l\<in>set ecData.
          rowTicketType r = CStr (ticketTypeOf (ticketTypeInputOf P (ecTicketType l)))
          \<and> ticketTypeOf (ticketTypeInputOf P (ecTicketType l)) \<notin> set chainLabels)
    \<and> map ticketTypeOf chainLabels =
        [js ''PriorityPass'', js ''PriorityPass'', js ''StandardPass'', js ''StandardPass'',
         js ''GuestPass'', js ''GuestPass'', js ''GuestPass'', js ''FreeGuest'', js ''FreeGuest'',
         js ''VIP Pass'']"
proof -
  let ?info = "snd (readECData P ecData ([], []))"
  from syncECData_run [OF assms, of P] obtain g where
    gen: "generateMissing P (readMemberMaster P masterData Map.empty) ?info
            (countExisting P (attendees S) Map.empty) (fst (readECData P ecData ([], [])))
            \<lparr>rowsToAdd = [], matchedCount = 0, missingEmailCount = 0\<rparr> = Inr g"
    and res: "syncECData P S = Inr (Synced (length (rowsToAdd g)) (matchedCount g)
            (missingEmailCount g), S\<lparr>attendees := attendees S @ rowsToAdd g\<rparr>)" by blast
  have good: "infoGood P ecData ?info" by (rule readECData_infoGood)
  have rows: "\<forall>r\<in>set (rowsToAdd g). \<exists>l\<in>set ecData.
          rowTicketType r = CStr (ticketTypeOf (ticketTypeInputOf P (ecTicketType l)))
          \<and> ticketTypeOf (ticketTypeInputOf P (ecTicketType l)) \<notin> set chainLabels"
  proof
    fix r assume "r \<in> set (rowsToAdd g)"
    with generateMissing_rows [OF gen] obtain k i e where
      i: "map_of ?info k = Some i" and r: "r = newRow P i e" by auto
    from infoGood_entry(2) [OF good i] obtain l where "l \<in> set ecData"
      "infoTicketType i = ticketTypeOf (ticketTypeInputOf P (ecTicketType l))"
      by blast
    with r ticketTypeOf_not_alias show "\<exists>l\<in>set ecData.
          rowTicketType r = CStr (ticketTypeOf (ticketTypeInputOf P (ecTicketType l)))
          \<and> ticketTypeOf (ticketTypeInputOf P (ecTicketType l)) \<notin> set chainLabels"
      by (auto simp: newRow_def Let_def)
  qed
  have renamed: "map ticketTypeOf chainLabels =
        [js ''PriorityPass'', js ''PriorityPass'', js ''StandardPass'', js ''StandardPass'',
         js ''GuestPass'', js ''GuestPass'', js ''GuestPass'', js ''FreeGuest'', js ''FreeGuest'',
         js ''VIP Pass'']"
    by (simp add: ticketTypeOf_def chainLabels_def js_def labelFreeInvitee_def
        labelOfficerInvitation_def)
  show ?thesis
    by (rule exI [of _ "rowsToAdd g"], rule exI [of _ "matchedCount g"],
        rule exI [of _ "missingEmailCount g"])
       (intro conjI; (rule res | rule rows | rule renamed))
qed

section \<open>Dashboard\<close>

text \<open>
  Claim C9, as the code has it. \<open>getDashboardData\<close> is a function of the store rows alone.
  On the empty store it returns zeros and the empty breakdown. In general \<open>total\<close> counts
  the rows whose ID cell is truthy (a non-empty text, a number other than zero, TRUE or a
  date, as \<open>if (id)\<close> tests it), \<open>checkedIn\<close> counts those of them whose CheckInTime cell is
  truthy, and \<open>notCheckedIn\<close> is their difference. For a type that is not the name of a
  member inherited from \<open>Object.prototype\<close>, the breakdown has an entry exactly when some
  counted row has that type (\<open>Unknown\<close> for a missing type), and the entry holds the same
  two counts restricted to the rows of that type.
\<close>

theorem getDashboardData_counts:
  "getDashboardData P [] = \<lparr>total = 0, checkedIn = 0, notCheckedIn = 0, breakdown = Map.empty\<rparr>
   \<and> total (getDashboardData P data) = length (filter (\<lambda>r. truthy (rowId r)) data)
   \<and> checkedIn (getDashboardData P data)
       = length (filter (\<lambda>r. truthy (rowId r) \<and> truthy (rowCheckInTime r)) data)
   \<and> notCheckedIn (getDashboardData P data)
       = int (total (getDashboardData P data)) - int (checkedIn (getDashboardData P data))
   \<and> (k \<notin> set objectPrototypeNames \<longrightarrow>
        breakdown (getDashboardData P data) k
        = (if filter (\<lambda>r. truthy (rowId r) \<and> typeLabel P r = k) data = [] then None
           else Some \<lparr>typeTotal = length (filter (\<lambda>r. truthy (rowId r) \<and> typeLabel P r = k) data),
                     typeCheckedIn = length (filter (\<lambda>r. truthy (rowId r) \<and> typeLabel P r = k
                         \<and> truthy (rowCheckInTime r)) data)\<rparr>))"
  by (simp add: getDashboardData_def Let_def dashboardScan_total dashboardScan_checkedIn
      dashboardScan_breakdown entryOf_def)

theorem getDashboardData_counts_witness:
  "js ''VIP Pass'' \<notin> set objectPrototypeNames \<and> js ''Unknown'' \<notin> set objectPrototypeNames
   \<and> total (getDashboardData demoPlatform
       [demoRow (js ''A1'') (js ''T1'') (CDate 500) (js ''VIP Pass''),
        demoRow (js ''A2'') (js ''T2'') (CStr []) (js ''VIP Pass''),
        demoRow (js ''A3'') (js ''T3'') (CStr []) [],
        demoRow [] [] (CStr []) (js ''VIP Pass'')]) = 3
   \<and> checkedIn (getDashboardData demoPlatform
       [demoRow (js ''A1'') (js ''T1'') (CDate 500) (js ''VIP Pass''),
        demoRow (js ''A2'') (js ''T2'') (CStr []) (js ''VIP Pass''),
        demoRow (js ''A3'') (js ''T3'') (CStr []) [],
        demoRow [] [] (CStr []) (js ''VIP Pass'')]) = 1
   \<and> notCheckedIn (getDashboardData demoPlatform
       [demoRow (js ''A1'') (js ''T1'') (CDate 500) (js ''VIP Pass''),
        demoRow (js ''A2'') (js ''T2'') (CStr []) (js ''VIP Pass''),
        demoRow (js ''A3'') (js ''T3'') (CStr []) [],
        demoRow [] [] (CStr []) (js ''VIP Pass'')]) = 2
   \<and> breakdown (getDashboardData demoPlatform
       [demoRow (js ''A1'') (js ''T1'') (CDate 500) (js ''VIP Pass''),
        demoRow (js ''A2'') (js ''T2'') (CStr []) (js ''VIP Pass''),
        demoRow (js ''A3'') (js ''T3'') (CStr []) [],
        demoRow [] [] (CStr []) (js ''VIP Pass'')]) (js ''VIP Pass'')
      = Some \<lparr>typeTotal = 2, typeCheckedIn = 1\<rparr>
   \<and> breakdown (getDashboardData demoPlatform
       [demoRow (js ''A1'') (js ''T1'') (CDate 500) (js ''VIP Pass''),
        demoRow (js ''A2'') (js ''T2'') (CStr []) (js ''VIP Pass''),
        demoRow (js ''A3'') (js ''T3'') (CStr []) [],
        demoRow [] [] (CStr []) (js ''VIP Pass'')]) (js ''Unknown'')
      = Some \<lparr>typeTotal = 1, typeCheckedIn = 0\<rparr>"
proof -
  let ?d = "[demoRow (js ''A1'') (js ''T1'') (CDate 500) (js ''VIP Pass''),
             demoRow (js ''A2'') (js ''T2'') (CStr []) (js ''VIP Pass''),
             demoRow (js ''A3'') (js ''T3'') (CStr []) [],
             demoRow [] [] (CStr []) (js ''VIP Pass'')]"
  have h1: "js ''VIP Pass'' \<notin> set objectPrototypeNames"
    by (simp add: objectPrototypeNames_def js_def)
  have h2: "js ''Unknown'' \<notin> set objectPrototypeNames"
    by (simp add: objectPrototypeNames_def js_def)
  from getDashboardData_counts [of demoPlatform ?d "js ''VIP Pass''"]
    getDashboardData_counts [of demoPlatform ?d "js ''Unknown''"] h1 h2
  show ?thesis
    by (simp add: demoRow_def typeLabel_def js_def)
qed

text \<open>
  Claim C9 as stated counts a row when its id is non-empty. An ID cell holding the number 0
  is not empty (its text is \<open>0\<close>), but \<open>if (id)\<close> is false for it: the row is counted neither
  in \<open>total\<close> nor in the breakdown of its type.
\<close>

theorem getDashboardData_zero_id_counterexample:
  "rowId ((demoRow [] [] (CStr []) (js ''VIP Pass''))\<lparr>rowId := CNum 0\<rparr>) \<noteq> CStr []
   \<and> toStr demoPlatform (rowId ((demoRow [] [] (CStr []) (js ''VIP Pass''))\<lparr>rowId := CNum 0\<rparr>))
       = js ''0''
   \<and> total (getDashboardData demoPlatform
       [(demoRow [] [] (CStr []) (js ''VIP Pass''))\<lparr>rowId := CNum 0\<rparr>]) = 0
   \<and> breakdown (getDashboardData demoPlatform
       [(demoRow [] [] (CStr []) (js ''VIP Pass''))\<lparr>rowId := CNum 0\<rparr>]) (js ''VIP Pass'') = None"
  by (simp add: getDashboardData_def dashboardStep_def demoRow_def natDigits_small js_def)

text \<open>
  A ticket type named like a member that every object inherits breaks the breakdown in
  another way, which the statement above leaves out: \<open>breakdown\<close> never receives an entry
  for it, although its rows are counted in \<open>total\<close>.
\<close>

lemma getDashboardData_inherited_type_has_no_entry:
  assumes "k \<in> set objectPrototypeNames"
  shows "breakdown (getDashboardData P data) k = None"
  using dashboardScan_inherited [OF assms, of
      "\<lparr>tallyTotal = 0, tallyCheckedIn = 0, tallyBreakdown = Map.empty\<rparr>" P data]
  by (simp add: getDashboardData_def Let_def)

lemma getDashboardData_constructor_type:
  "total (getDashboardData demoPlatform
       [demoRow (js ''A1'') (js ''T1'') (CStr []) (js ''constructor'')]) = 1
   \<and> breakdown (getDashboardData demoPlatform
       [demoRow (js ''A1'') (js ''T1'') (CStr []) (js ''constructor'')]) (js ''constructor'') = None"
  by (simp add: getDashboardData_def dashboardStep_def demoRow_def orElse_def js_def
      objectPrototypeNames_def)

end
